theory Spec2Isabelle
  imports Complex_Main "HOL-Library.Multiset"
begin

section \<open>Strings of the host language\<close>

text \<open>
  A string of the program is modelled as an Isabelle string; a character stands for a
  code unit below 256. The character classes below are the ones the regular expressions
  of the source use on that range: \<open>\w\<close> is \<open>[A-Za-z0-9_]\<close>, \<open>\s\<close> (and the characters
  removed by \<open>trim\<close>) are tab, line feed, vertical tab, form feed, carriage return, space
  and the no-break space, and the dot excludes line feed and carriage return.
\<close>

definition code :: "char \<Rightarrow> nat" where
  "code c = of_char c"

definition is_upper :: "char \<Rightarrow> bool" where
  "is_upper c = (65 \<le> code c \<and> code c \<le> 90)"

definition is_lower :: "char \<Rightarrow> bool" where
  "is_lower c = (97 \<le> code c \<and> code c \<le> 122)"

definition is_digit :: "char \<Rightarrow> bool" where
  "is_digit c = (48 \<le> code c \<and> code c \<le> 57)"

definition is_word :: "char \<Rightarrow> bool" where
  "is_word c = (is_upper c \<or> is_lower c \<or> is_digit c \<or> c = CHR ''_'')"

definition is_space :: "char \<Rightarrow> bool" where
  "is_space c = (code c \<in> {9, 10, 11, 12, 13, 32, 160})"

definition is_line_end :: "char \<Rightarrow> bool" where
  "is_line_end c = (code c \<in> {10, 13})"

text \<open>
  \<open>toLowerCase\<close> on the range: the ASCII capitals and the Latin-1 capitals
  (\<open>0xC0\<close> to \<open>0xDE\<close> without the multiplication sign) move up by 32.
\<close>

definition lower_char :: "char \<Rightarrow> char" where
  "lower_char c =
     (if is_upper c \<or> (192 \<le> code c \<and> code c \<le> 222 \<and> code c \<noteq> 215)
      then char_of (code c + 32) else c)"

definition toLowerCase :: "string \<Rightarrow> string" where
  "toLowerCase s = map lower_char s"

text \<open>
  \<open>toUpperCase\<close> on the range: the ASCII and Latin-1 small letters move down by 32 and
  the sharp s becomes \<open>SS\<close>. The micro sign and y with diaeresis, whose capitals lie above
  255, are left as they are.
\<close>

definition upper_char :: "char \<Rightarrow> string" where
  "upper_char c =
     (if is_lower c \<or> (224 \<le> code c \<and> code c \<le> 254 \<and> code c \<noteq> 247)
      then [char_of (code c - 32)]
      else if code c = 223 then ''SS'' else [c])"

definition toUpperCase :: "string \<Rightarrow> string" where
  "toUpperCase s = concat (map upper_char s)"

text \<open>\<open>s.trim()\<close>.\<close>

definition trim :: "string \<Rightarrow> string" where
  "trim s = rev (dropWhile is_space (rev (dropWhile is_space s)))"

text \<open>
  \<open>s.split(' ')\<close>: the pieces between single spaces; the empty string gives one empty
  piece, two spaces in a row give an empty piece between them.
\<close>

fun split_sp :: "string \<Rightarrow> string list" where
  "split_sp [] = [[]]"
| "split_sp (c # cs) =
     (if c = CHR '' '' then [] # split_sp cs
      else (case split_sp cs of w # ws \<Rightarrow> (c # w) # ws | [] \<Rightarrow> [[c]]))"

text \<open>\<open>s.indexOf(t)\<close>, \<open>None\<close> for \<open>-1\<close>; \<open>s.includes(t)\<close>; \<open>s.substring(i, j)\<close> for \<open>i \<le> j\<close>.\<close>

fun indexOf :: "string \<Rightarrow> string \<Rightarrow> nat option" where
  "indexOf [] t = (if t = [] then Some 0 else None)"
| "indexOf (c # cs) t =
     (if take (length t) (c # cs) = t then Some 0
      else map_option Suc (indexOf cs t))"

definition includes_str :: "string \<Rightarrow> string \<Rightarrow> bool" where
  "includes_str s t = (indexOf s t \<noteq> None)"

definition substring :: "string \<Rightarrow> nat \<Rightarrow> nat \<Rightarrow> string" where
  "substring s i j = take (j - i) (drop i s)"

section \<open>Regular expressions\<close>

text \<open>
  The regular expressions of the source are written as terms of a datatype and run by a
  backtracking matcher that returns the possible ends of a match in the order in which the
  host language tries them: the left alternative before the right one, a greedy repetition
  longest first, a lazy repetition shortest first. The first element is the match the host
  reports.
\<close>

datatype citem = C char | R char char | CW | CD | CS

datatype re =
    Eps
  | Str string
  | Set "citem list"
  | NSet "citem list"
  | Dot
  | Cat re re
  | Alt re re
  | Star re
  | LStar re
  | Grp nat re
  | WB
  | Bol
  | Eol

fun item_has :: "citem \<Rightarrow> char \<Rightarrow> bool" where
  "item_has (C d) c = (c = d)"
| "item_has (R lo hi) c = (code lo \<le> code c \<and> code c \<le> code hi)"
| "item_has CW c = is_word c"
| "item_has CD c = is_digit c"
| "item_has CS c = is_space c"

text \<open>
  Under the \<open>i\<close> flag two characters match when their canonical (upper-case) forms agree;
  the expressions of the source name ASCII characters only, so it is enough to fold the
  ASCII letters.
\<close>

definition fold_char :: "char \<Rightarrow> char" where
  "fold_char c = (if is_lower c then char_of (code c - 32) else c)"

definition unfold_char :: "char \<Rightarrow> char" where
  "unfold_char c = (if is_upper c then char_of (code c + 32) else c)"

definition chr_eq :: "bool \<Rightarrow> char \<Rightarrow> char \<Rightarrow> bool" where
  "chr_eq ci a b = (if ci then fold_char a = fold_char b else a = b)"

definition set_has :: "bool \<Rightarrow> citem list \<Rightarrow> char \<Rightarrow> bool" where
  "set_has ci xs c =
     (\<exists>x \<in> set xs. item_has x c \<or> (ci \<and> (item_has x (fold_char c) \<or> item_has x (unfold_char c))))"

fun str_at :: "bool \<Rightarrow> string \<Rightarrow> string \<Rightarrow> bool" where
  "str_at ci [] s = True"
| "str_at ci (a # l) [] = False"
| "str_at ci (a # l) (b # s) = (chr_eq ci a b \<and> str_at ci l s)"

text \<open>
  A matcher state: the character before the current position (\<open>None\<close> at the start of
  the input), the rest of the input, and the captured groups.
\<close>

type_synonym mstate = "char option \<times> string \<times> (nat \<times> string) list"

definition at_word :: "char option \<Rightarrow> bool" where
  "at_word p = (case p of None \<Rightarrow> False | Some c \<Rightarrow> is_word c)"

definition boundary :: "char option \<Rightarrow> string \<Rightarrow> bool" where
  "boundary p s = (at_word p \<noteq> (case s of [] \<Rightarrow> False | c # _ \<Rightarrow> is_word c))"

definition advance :: "mstate \<Rightarrow> nat \<Rightarrow> mstate" where
  "advance st n =
     (case st of (p, s, g) \<Rightarrow>
        (if n = 0 then p else Some (s ! (n - 1)), drop n s, g))"

definition rest :: "mstate \<Rightarrow> string" where
  "rest st = fst (snd st)"

definition capture :: "nat \<Rightarrow> mstate \<Rightarrow> mstate \<Rightarrow> mstate" where
  "capture n st st' =
     (case st' of (p, s, g) \<Rightarrow>
        (p, s, (n, take (length (rest st) - length s) (rest st)) # filter (\<lambda>e. fst e \<noteq> n) g))"

function ms :: "bool \<Rightarrow> re \<Rightarrow> mstate \<Rightarrow> mstate list" where
  "ms ci Eps st = [st]"
| "ms ci (Str l) st =
     (if str_at ci l (rest st) then [advance st (length l)] else [])"
| "ms ci (Set xs) st =
     (case rest st of [] \<Rightarrow> [] | c # _ \<Rightarrow> if set_has ci xs c then [advance st 1] else [])"
| "ms ci (NSet xs) st =
     (case rest st of [] \<Rightarrow> [] | c # _ \<Rightarrow> if set_has ci xs c then [] else [advance st 1])"
| "ms ci Dot st =
     (case rest st of [] \<Rightarrow> [] | c # _ \<Rightarrow> if is_line_end c then [] else [advance st 1])"
| "ms ci (Cat r1 r2) st = concat (map (ms ci r2) (ms ci r1 st))"
| "ms ci (Alt r1 r2) st = ms ci r1 st @ ms ci r2 st"
| "ms ci (Star r) st =
     concat (map (\<lambda>st'. if length (rest st') < length (rest st) then ms ci (Star r) st' else [])
                 (ms ci r st)) @ [st]"
| "ms ci (LStar r) st =
     st # concat (map (\<lambda>st'. if length (rest st') < length (rest st) then ms ci (LStar r) st' else [])
                 (ms ci r st))"
| "ms ci (Grp n r) st = map (capture n st) (ms ci r st)"
| "ms ci WB st = (if boundary (fst st) (rest st) then [st] else [])"
| "ms ci Bol st = (if fst st = None then [st] else [])"
| "ms ci Eol st = (if rest st = [] then [st] else [])"
  by pat_completeness auto
termination
  by (relation "inv_image (less_than <*lex*> less_than) (\<lambda>(ci, r, st). (size r, length (rest st)))")
     auto

text \<open>Derived forms: \<open>r+\<close>, \<open>r+?\<close>, \<open>r?\<close>, and an alternation of several branches.\<close>

definition Plus :: "re \<Rightarrow> re" where
  "Plus r = Cat r (Star r)"

definition LPlus :: "re \<Rightarrow> re" where
  "LPlus r = Cat r (LStar r)"

definition Opt :: "re \<Rightarrow> re" where
  "Opt r = Alt r Eps"

fun alts :: "re list \<Rightarrow> re" where
  "alts [] = Set []"
| "alts [r] = r"
| "alts (r # rs) = Alt r (alts rs)"

fun cats :: "re list \<Rightarrow> re" where
  "cats [] = Eps"
| "cats [r] = r"
| "cats (r # rs) = Cat r (cats rs)"

definition words :: "string list \<Rightarrow> re" where
  "words ws = alts (map Str ws)"

text \<open>
  \<open>s.match(re)\<close> and \<open>re.test(s)\<close> without the \<open>g\<close> flag: the leftmost position at
  which the expression matches, with the first match there. \<open>group n\<close> reads a captured
  group of the result, \<open>None\<close> when the group took no part in the match.
\<close>

fun search :: "bool \<Rightarrow> re \<Rightarrow> char option \<Rightarrow> string \<Rightarrow> mstate option" where
  "search ci r p [] = (case ms ci r (p, [], []) of st # _ \<Rightarrow> Some st | [] \<Rightarrow> None)"
| "search ci r p (c # cs) =
     (case ms ci r (p, c # cs, []) of st # _ \<Rightarrow> Some st | [] \<Rightarrow> search ci r (Some c) cs)"

definition re_match :: "bool \<Rightarrow> re \<Rightarrow> string \<Rightarrow> mstate option" where
  "re_match ci r s = search ci r None s"

definition re_test :: "bool \<Rightarrow> re \<Rightarrow> string \<Rightarrow> bool" where
  "re_test ci r s = (re_match ci r s \<noteq> None)"

definition group :: "nat \<Rightarrow> mstate \<Rightarrow> string option" where
  "group n st = map_of (snd (snd st)) n"

text \<open>
  \<open>s.replace(re, rep)\<close> with the \<open>g\<close> flag and a replacement without \<open>$\<close>: every match,
  found from left to right, is replaced; after an empty match one character is copied.
\<close>

function replace_from :: "bool \<Rightarrow> re \<Rightarrow> string \<Rightarrow> char option \<Rightarrow> string \<Rightarrow> string" where
  "replace_from ci r rep p s =
     (case ms ci r (p, s, []) of
        st # _ \<Rightarrow>
          if length (rest st) < length s then rep @ replace_from ci r rep (fst st) (rest st)
          else (case s of [] \<Rightarrow> rep | c # cs \<Rightarrow> rep @ c # replace_from ci r rep (Some c) cs)
      | [] \<Rightarrow> (case s of [] \<Rightarrow> [] | c # cs \<Rightarrow> c # replace_from ci r rep (Some c) cs))"
  by pat_completeness auto
termination
  by (relation "measure (\<lambda>(ci, r, rep, p, s). length s)") auto

definition replace_all :: "bool \<Rightarrow> re \<Rightarrow> string \<Rightarrow> string \<Rightarrow> string" where
  "replace_all ci r rep s = replace_from ci r rep None s"

text \<open>\<open>(s.match(re) || []).length\<close> with the \<open>g\<close> flag: the number of matches.\<close>

function count_from :: "bool \<Rightarrow> re \<Rightarrow> char option \<Rightarrow> string \<Rightarrow> nat" where
  "count_from ci r p s =
     (case ms ci r (p, s, []) of
        st # _ \<Rightarrow>
          if length (rest st) < length s then Suc (count_from ci r (fst st) (rest st))
          else (case s of [] \<Rightarrow> 1 | c # cs \<Rightarrow> Suc (count_from ci r (Some c) cs))
      | [] \<Rightarrow> (case s of [] \<Rightarrow> 0 | c # cs \<Rightarrow> count_from ci r (Some c) cs))"
  by pat_completeness auto
termination
  by (relation "measure (\<lambda>(ci, r, p, s). length s)") auto

definition count_matches :: "bool \<Rightarrow> re \<Rightarrow> string \<Rightarrow> nat" where
  "count_matches ci r s = count_from ci r None s"

section \<open>The normalizer\<close>

text \<open>
  \<^verbatim>\<open>
  normalizeForMatching(input) {
    return input
      .toLowerCase()
      .replace(/[^\w\s]/g, ' ')
      .replace(/\b(the|a|an|to|for|by|on|at|in)\b/g, '')
      .replace(/\b(monday|tuesday|wednesday|thursday|friday|saturday|sunday)\b/g, '[DAY]')
      .replace(/\b(today|tomorrow|next week)\b/g, '[TIME]')
      .replace(/\b\d+\b/g, '[NUM]')
      .replace(/\s+/g, ' ')
      .trim();
  }
  \<close>
\<close>

definition re_punct :: re where
  "re_punct = NSet [CW, CS]"

definition stop_words :: "string list" where
  "stop_words = [''the'', ''a'', ''an'', ''to'', ''for'', ''by'', ''on'', ''at'', ''in'']"

definition day_words :: "string list" where
  "day_words = [''monday'', ''tuesday'', ''wednesday'', ''thursday'', ''friday'', ''saturday'', ''sunday'']"

definition time_words :: "string list" where
  "time_words = [''today'', ''tomorrow'', ''next week'']"

definition re_word_of :: "string list \<Rightarrow> re" where
  "re_word_of ws = Cat WB (Cat (Grp 1 (words ws)) WB)"

definition re_number :: re where
  "re_number = Cat WB (Cat (Plus (Set [CD])) WB)"

definition re_spaces :: re where
  "re_spaces = Plus (Set [CS])"

definition normalizeForMatching :: "string \<Rightarrow> string" where
  "normalizeForMatching input =
     trim
       (replace_all False re_spaces '' ''
         (replace_all False re_number ''[NUM]''
           (replace_all False (re_word_of time_words) ''[TIME]''
             (replace_all False (re_word_of day_words) ''[DAY]''
               (replace_all False (re_word_of stop_words) []
                 (replace_all False re_punct '' ''
                   (toLowerCase input)))))))"

section \<open>The pattern store\<close>

text \<open>
  A chunk of a task is an object with a name, or (in a task replayed from a learned
  pattern) a bare string. Reading \<open>c.name\<close> from a bare string gives \<open>undefined\<close>,
  which is \<open>None\<close> here.
\<close>

record chunk =
  c_id :: string
  c_name :: "string option"
  c_completed :: bool
  c_order :: nat

datatype chunkv = CStr string | CObj chunk

fun chunk_name :: "chunkv \<Rightarrow> string option" where
  "chunk_name (CStr s) = None"
| "chunk_name (CObj c) = c_name c"

text \<open>
  A learned pattern. The fields that the source reads behind a guard (\<open>||\<close>, \<open>?.\<close>,
  \<open>if (!template)\<close>) are optional; \<open>useCount\<close> is an integer.
\<close>

record pattern =
  p_id :: string
  normalized :: string
  originalInput :: string
  taskNameTemplate :: "(string \<times> string option) option"
  projectPattern :: "(string \<times> string) option"
  defaultProject :: "string option"
  p_chunks :: "string option list option"
  p_createdAt :: string
  useCount :: int
  successRate :: "rat option"

text \<open>
  \<^verbatim>\<open>
  patternsMatch(a, b) {
    const wordsA = a.split(' ');
    const wordsB = b.split(' ');
    let matches = 0;
    for (const word of wordsA) {
      if (wordsB.includes(word)) matches++;
    }
    const similarity = matches / Math.max(wordsA.length, wordsB.length);
    return similarity >= 0.7;
  }
  \<close>
  The quotient is taken exactly. The source divides two doubles and compares with the
  double nearest to 0.7; as \<open>matches\<close> and the maximum are whole numbers, the two
  comparisons agree for every string of fewer than \<open>10^15\<close> words.
\<close>

definition count_matching :: "string list \<Rightarrow> string list \<Rightarrow> nat" where
  "count_matching wordsA wordsB = length (filter (\<lambda>word. word \<in> set wordsB) wordsA)"

definition similarity :: "string \<Rightarrow> string \<Rightarrow> rat" where
  "similarity a b =
     (let wordsA = split_sp a; wordsB = split_sp b
      in of_nat (count_matching wordsA wordsB) / of_nat (max (length wordsA) (length wordsB)))"

definition patternsMatch :: "string \<Rightarrow> string \<Rightarrow> bool" where
  "patternsMatch a b = (similarity a b \<ge> 7 / 10)"

text \<open>
  \<^verbatim>\<open>
  findMatchingPattern(input) {
    const normalized = this.normalizeForMatching(input);
    for (const pattern of this.learnedPatterns) {
      if (this.patternsMatch(normalized, pattern.normalized)) {
        return { pattern, confidence: pattern.successRate || 0.8 };
      }
    }
    return null;
  }
  \<close>
  \<open>x || 0.8\<close> is 0.8 when the rate is missing or zero.
\<close>

definition rate_or :: "rat option \<Rightarrow> rat" where
  "rate_or r = (case r of None \<Rightarrow> 8 / 10 | Some x \<Rightarrow> if x = 0 then 8 / 10 else x)"

fun first_matching :: "string \<Rightarrow> pattern list \<Rightarrow> (pattern \<times> rat) option" where
  "first_matching nrm [] = None"
| "first_matching nrm (p # ps) =
     (if patternsMatch nrm (normalized p) then Some (p, rate_or (successRate p))
      else first_matching nrm ps)"

definition findMatchingPattern :: "pattern list \<Rightarrow> string \<Rightarrow> (pattern \<times> rat) option" where
  "findMatchingPattern learnedPatterns input =
     first_matching (normalizeForMatching input) learnedPatterns"

text \<open>
  The remote result as \<open>learnFromClaudeResponse\<close> reads it: \<open>name\<close>, \<open>project\<close> and
  \<open>chunks\<close>.
\<close>

record parsed =
  r_name :: "string option"
  r_project :: string
  r_chunks :: "chunkv list option"

text \<open>
  \<^verbatim>\<open>
  createTaskNameTemplate(input, resultName) {
    return { original: input, result: resultName };
  }
  createProjectPattern(input, project) {
    const lowerInput = input.toLowerCase();
    const lowerProject = project.toLowerCase();
    const index = lowerInput.indexOf(lowerProject);
    if (index >= 0) {
      const before = lowerInput.substring(Math.max(0, index - 10), index).trim();
      return { keyword: before, project };
    }
    return null;
  }
  \<close>
\<close>

definition createTaskNameTemplate :: "string \<Rightarrow> string option \<Rightarrow> (string \<times> string option) option" where
  "createTaskNameTemplate input resultName = Some (input, resultName)"

definition createProjectPattern :: "string \<Rightarrow> string \<Rightarrow> (string \<times> string) option" where
  "createProjectPattern input project =
     (let lowerInput = toLowerCase input; lowerProject = toLowerCase project
      in case indexOf lowerInput lowerProject of
           Some index \<Rightarrow> Some (trim (substring lowerInput (index - 10) index), project)
         | None \<Rightarrow> None)"

text \<open>
  \<^verbatim>\<open>
  learnFromClaudeResponse(input, claudeResult) {
    const normalized = this.normalizeForMatching(input);
    const pattern = {
      id: this.generateId(),
      normalized,
      originalInput: input,
      taskNameTemplate: this.createTaskNameTemplate(input, claudeResult.name),
      projectPattern: this.createProjectPattern(input, claudeResult.project),
      defaultProject: claudeResult.project,
      chunks: claudeResult.chunks?.map(c => c.name) || [],
      createdAt: new Date().toISOString(),
      useCount: 1,
      successRate: 1.0
    };
    const existingIndex = this.learnedPatterns.findIndex(p =>
      this.patternsMatch(p.normalized, normalized)
    );
    if (existingIndex >= 0) {
      this.learnedPatterns[existingIndex].useCount++;
      this.learnedPatterns[existingIndex].chunks = pattern.chunks;
    } else {
      this.learnedPatterns.push(pattern);
    }
    if (this.learnedPatterns.length > 100) {
      this.learnedPatterns = this.learnedPatterns
        .sort((a, b) => b.useCount - a.useCount)
        .slice(0, 100);
    }
    this.saveLearnedPatterns();
  }
  \<close>
  The fresh identifier (\<open>Math.random\<close>) and the current time are inputs of the model.
  \<open>Array.prototype.sort\<close> is stable, and so is \<open>sort_key\<close>; the comparator
  \<open>b.useCount - a.useCount\<close> orders by falling \<open>useCount\<close>.
\<close>

definition learned_chunks :: "parsed \<Rightarrow> string option list" where
  "learned_chunks claudeResult =
     (case r_chunks claudeResult of None \<Rightarrow> [] | Some cs \<Rightarrow> map chunk_name cs)"

definition new_pattern :: "string \<Rightarrow> string \<Rightarrow> string \<Rightarrow> parsed \<Rightarrow> pattern" where
  "new_pattern fresh_id now_iso input claudeResult =
     \<lparr> p_id = fresh_id,
       normalized = normalizeForMatching input,
       originalInput = input,
       taskNameTemplate = createTaskNameTemplate input (r_name claudeResult),
       projectPattern = createProjectPattern input (r_project claudeResult),
       defaultProject = Some (r_project claudeResult),
       p_chunks = Some (learned_chunks claudeResult),
       p_createdAt = now_iso,
       useCount = 1,
       successRate = Some 1 \<rparr>"

fun findIndex :: "('a \<Rightarrow> bool) \<Rightarrow> 'a list \<Rightarrow> nat option" where
  "findIndex P [] = None"
| "findIndex P (x # xs) = (if P x then Some 0 else map_option Suc (findIndex P xs))"

definition existingIndex :: "pattern list \<Rightarrow> string \<Rightarrow> nat option" where
  "existingIndex learnedPatterns nrm =
     findIndex (\<lambda>p. patternsMatch (normalized p) nrm) learnedPatterns"

definition merge_pattern :: "pattern \<Rightarrow> pattern \<Rightarrow> pattern" where
  "merge_pattern new old = old\<lparr> useCount := useCount old + 1, p_chunks := p_chunks new \<rparr>"

definition add_or_update :: "pattern \<Rightarrow> pattern list \<Rightarrow> pattern list" where
  "add_or_update new learnedPatterns =
     (case existingIndex learnedPatterns (normalized new) of
        Some i \<Rightarrow> learnedPatterns[i := merge_pattern new (learnedPatterns ! i)]
      | None \<Rightarrow> learnedPatterns @ [new])"

definition by_use_count :: "pattern list \<Rightarrow> pattern list" where
  "by_use_count ps = sort_key (\<lambda>p. - useCount p) ps"

definition keep_top :: "pattern list \<Rightarrow> pattern list" where
  "keep_top ps = (if length ps > 100 then take 100 (by_use_count ps) else ps)"

definition evicted :: "pattern list \<Rightarrow> pattern list" where
  "evicted ps = (if length ps > 100 then drop 100 (by_use_count ps) else [])"

definition learnFromClaudeResponse ::
  "string \<Rightarrow> string \<Rightarrow> string \<Rightarrow> parsed \<Rightarrow> pattern list \<Rightarrow> pattern list" where
  "learnFromClaudeResponse fresh_id now_iso input claudeResult learnedPatterns =
     keep_top (add_or_update (new_pattern fresh_id now_iso input claudeResult) learnedPatterns)"

text \<open>A run of learning calls, each with its fresh identifier, time, input and result.\<close>

fun learn_all :: "(string \<times> string \<times> string \<times> parsed) list \<Rightarrow> pattern list \<Rightarrow> pattern list" where
  "learn_all [] ps = ps"
| "learn_all ((fresh_id, now_iso, input, res) # calls) ps =
     learn_all calls (learnFromClaudeResponse fresh_id now_iso input res ps)"

text \<open>
  The similarity as the specification words it: the size of the intersection of the two
  token multisets over the larger token count. It is compared with \<open>patternsMatch\<close>
  below.
\<close>

definition spec_similarity :: "string \<Rightarrow> string \<Rightarrow> rat" where
  "spec_similarity a b =
     (let wordsA = split_sp a; wordsB = split_sp b
      in of_nat (size (mset wordsA \<inter># mset wordsB)) / of_nat (max (length wordsA) (length wordsB)))"

definition spec_patternsMatch :: "string \<Rightarrow> string \<Rightarrow> bool" where
  "spec_patternsMatch a b = (spec_similarity a b \<ge> 7 / 10)"

section \<open>Dates\<close>

text \<open>
  A \<open>Date\<close> holds a time value, the milliseconds since the epoch in UTC, or is invalid
  (\<open>None\<close>). The functions below are the ones of the language standard that the source
  reaches through \<open>getDate\<close>, \<open>getDay\<close>, \<open>getFullYear\<close>, \<open>setDate\<close>,
  \<open>new Date(year, month, day)\<close> and \<open>toISOString\<close>. Local time is UTC plus a fixed
  offset \<open>tz\<close> in milliseconds. Numbers are integers here; the source computes with
  doubles, which are exact below \<open>2^53\<close>, and every time value beyond \<open>8.64 * 10^15\<close> is
  invalid in both.
\<close>

datatype error = RangeError

definition msPerDay :: int where
  "msPerDay = 86400000"

definition maxTime :: int where
  "maxTime = 8640000000000000"

definition Day :: "int \<Rightarrow> int" where
  "Day t = t div msPerDay"

definition TimeWithinDay :: "int \<Rightarrow> int" where
  "TimeWithinDay t = t mod msPerDay"

definition DayFromYear :: "int \<Rightarrow> int" where
  "DayFromYear y = 365 * (y - 1970) + (y - 1969) div 4 - (y - 1901) div 100 + (y - 1601) div 400"

definition InLeapYear :: "int \<Rightarrow> bool" where
  "InLeapYear y = (y mod 4 = 0 \<and> (y mod 100 \<noteq> 0 \<or> y mod 400 = 0))"

text \<open>The year of a day number: the largest \<open>y\<close> with \<open>DayFromYear y \<le> day\<close>, found upwards
  from a year that is not after it.\<close>

function year_up :: "int \<Rightarrow> int \<Rightarrow> int" where
  "year_up day y = (if DayFromYear (y + 1) \<le> day then year_up day (y + 1) else y)"
  by pat_completeness auto
termination
proof (relation "measure (\<lambda>(day, y). nat (day - DayFromYear y))")
  show "wf (measure (\<lambda>(day, y). nat (day - DayFromYear y)))" by simp
next
  fix day y :: int
  assume a: "DayFromYear (y + 1) \<le> day"
  have b: "(y - 1969) div 4 \<le> (y + 1 - 1969) div 4"
    by (rule zdiv_mono1) simp_all
  have "(y + 1 - 1901) div 100 \<le> (y - 1901 + 100) div 100"
    by (rule zdiv_mono1) simp_all
  also have "\<dots> = (y - 1901) div 100 + 1" by simp
  finally have c: "(y + 1 - 1901) div 100 \<le> (y - 1901) div 100 + 1" .
  have d: "(y - 1601) div 400 \<le> (y + 1 - 1601) div 400"
    by (rule zdiv_mono1) simp_all
  have lin: "\<And>p p' q q' r r' :: int. p \<le> p' \<Longrightarrow> q' \<le> q + 1 \<Longrightarrow> r \<le> r' \<Longrightarrow>
      365 * (y - 1970) + p - q + r < 365 * (y + 1 - 1970) + p' - q' + r'"
    by (simp add: algebra_simps)
  have "DayFromYear y < DayFromYear (y + 1)"
    unfolding DayFromYear_def by (rule lin[OF b c d])
  with a show "((day, y + 1), (day, y)) \<in> measure (\<lambda>(day, y). nat (day - DayFromYear y))"
    by simp
qed

definition YearFromDay :: "int \<Rightarrow> int" where
  "YearFromDay day =
     year_up day (1970 + (if 0 \<le> day then day div 366 else day div 365 - 1))"

definition month_starts :: "bool \<Rightarrow> int list" where
  "month_starts leap =
     (let l = (if leap then 1 else 0)
      in [0, 31, 59 + l, 90 + l, 120 + l, 151 + l, 181 + l, 212 + l, 243 + l, 273 + l,
          304 + l, 334 + l])"

definition DayWithinYear :: "int \<Rightarrow> int" where
  "DayWithinYear day = day - DayFromYear (YearFromDay day)"

definition MonthFromDay :: "int \<Rightarrow> int" where
  "MonthFromDay day =
     int (length (filter (\<lambda>s. s \<le> DayWithinYear day)
                         (month_starts (InLeapYear (YearFromDay day))))) - 1"

definition DateFromDay :: "int \<Rightarrow> int" where
  "DateFromDay day =
     DayWithinYear day
       - month_starts (InLeapYear (YearFromDay day)) ! nat (MonthFromDay day) + 1"

definition WeekDay :: "int \<Rightarrow> int" where
  "WeekDay day = (day + 4) mod 7"

definition MakeDay :: "int \<Rightarrow> int \<Rightarrow> int \<Rightarrow> int" where
  "MakeDay year month date =
     (let ym = year + month div 12; mn = month mod 12
      in DayFromYear ym + month_starts (InLeapYear ym) ! nat mn + date - 1)"

definition TimeClip :: "int \<Rightarrow> int option" where
  "TimeClip t = (if \<bar>t\<bar> > maxTime then None else Some t)"

definition getDate :: "int \<Rightarrow> int \<Rightarrow> int" where
  "getDate tz t = DateFromDay (Day (t + tz))"

definition getDay :: "int \<Rightarrow> int \<Rightarrow> int" where
  "getDay tz t = WeekDay (Day (t + tz))"

definition getFullYear :: "int \<Rightarrow> int \<Rightarrow> int" where
  "getFullYear tz t = YearFromDay (Day (t + tz))"

text \<open>\<open>d.setDate(n)\<close>: the day of the month is replaced in the local year and month of
  \<open>d\<close>, the time of day is kept; an invalid date stays invalid.\<close>

definition setDate :: "int \<Rightarrow> int option \<Rightarrow> int \<Rightarrow> int option" where
  "setDate tz d n =
     (case d of
        None \<Rightarrow> None
      | Some t \<Rightarrow>
          let lt = t + tz;
              day = MakeDay (YearFromDay (Day lt)) (MonthFromDay (Day lt)) n
          in TimeClip (day * msPerDay + TimeWithinDay lt - tz))"

text \<open>\<open>new Date(year, month, day)\<close>: local midnight; a year from 0 to 99 counts from 1900.\<close>

definition new_Date :: "int \<Rightarrow> int \<Rightarrow> int \<Rightarrow> int \<Rightarrow> int option" where
  "new_Date tz year month day =
     (let yr = (if 0 \<le> year \<and> year \<le> 99 then 1900 + year else year)
      in TimeClip (MakeDay yr month day * msPerDay - tz))"

text \<open>\<open>d.toISOString()\<close>: \<open>YYYY-MM-DDTHH:mm:ss.sssZ\<close> in UTC, the year with a sign and six
  digits outside 0 to 9999; a \<open>RangeError\<close> for an invalid date.\<close>

fun pad :: "nat \<Rightarrow> nat \<Rightarrow> string" where
  "pad 0 k = []"
| "pad (Suc n) k = pad n (k div 10) @ [char_of (48 + k mod 10)]"

definition iso_year :: "int \<Rightarrow> string" where
  "iso_year y =
     (if 0 \<le> y \<and> y \<le> 9999 then pad 4 (nat y)
      else (if y < 0 then ''-'' else ''+'') @ pad 6 (nat \<bar>y\<bar>))"

definition iso_string :: "int \<Rightarrow> string" where
  "iso_string t =
     (let day = Day t; ms = TimeWithinDay t
      in iso_year (YearFromDay day) @ ''-'' @ pad 2 (nat (MonthFromDay day + 1)) @ ''-''
         @ pad 2 (nat (DateFromDay day)) @ ''T'' @ pad 2 (nat (ms div 3600000)) @ '':''
         @ pad 2 (nat (ms div 60000 mod 60)) @ '':'' @ pad 2 (nat (ms div 1000 mod 60))
         @ ''.'' @ pad 3 (nat (ms mod 1000)) @ ''Z'')"

definition toISOString :: "int option \<Rightarrow> error + string" where
  "toISOString d = (case d of None \<Rightarrow> Inl RangeError | Some t \<Rightarrow> Inr (iso_string t))"

text \<open>\<open>parseInt\<close> on a string of decimal digits.\<close>

definition parseInt :: "string \<Rightarrow> int" where
  "parseInt s = foldl (\<lambda>a c. 10 * a + (int (code c) - 48)) 0 s"

definition group_text :: "nat \<Rightarrow> mstate \<Rightarrow> string" where
  "group_text n m = (case group n m of Some s \<Rightarrow> s | None \<Rightarrow> [])"

section \<open>The deadline extractor\<close>

text \<open>
  \<^verbatim>\<open>
  extractDeadline(text) {
    const now = new Date();
    let deadline = new Date(now);
    deadline.setDate(deadline.getDate() + 1); // Default: tomorrow
    const deadlinePatterns = [
      { pattern: /\btoday\b/, days: 0 },
      { pattern: /\btomorrow\b/, days: 1 },
      { pattern: /\bday after tomorrow\b/, days: 2 },
      { pattern: /\bnext week\b/, days: 7 },
      { pattern: /\bin (\d+) days?\b/, handler: (m) => parseInt(m[1]) },
      { pattern: /\bin (\d+) weeks?\b/, handler: (m) => parseInt(m[1]) * 7 },
      { pattern: /\bon monday\b/, weekday: 1 },
      { pattern: /\bon tuesday\b/, weekday: 2 },
      { pattern: /\bon wednesday\b/, weekday: 3 },
      { pattern: /\bon thursday\b/, weekday: 4 },
      { pattern: /\bon friday\b/, weekday: 5 },
      { pattern: /\bon saturday\b/, weekday: 6 },
      { pattern: /\bon sunday\b/, weekday: 0 },
      { pattern: /\bmonday\b/, weekday: 1 },
      { pattern: /\btuesday\b/, weekday: 2 },
      { pattern: /\bwednesday\b/, weekday: 3 },
      { pattern: /\bthursday\b/, weekday: 4 },
      { pattern: /\bfriday\b/, weekday: 5 },
    ];
    for (const dp of deadlinePatterns) {
      const match = text.match(dp.pattern);
      if (match) {
        if (dp.days !== undefined) {
          deadline.setDate(now.getDate() + dp.days);
        } else if (dp.handler) {
          deadline.setDate(now.getDate() + dp.handler(match));
        } else if (dp.weekday !== undefined) {
          const currentDay = now.getDay();
          let daysUntil = dp.weekday - currentDay;
          if (daysUntil <= 0) daysUntil += 7;
          deadline.setDate(now.getDate() + daysUntil);
        }
        break;
      }
    }
    const dateMatch = text.match(/\b(\d{1,2})[\/\-](\d{1,2})(?:[\/\-](\d{2,4}))?\b/);
    if (dateMatch) {
      const month = parseInt(dateMatch[1]) - 1;
      const day = parseInt(dateMatch[2]);
      const year = dateMatch[3] ? parseInt(dateMatch[3]) : now.getFullYear();
      deadline = new Date(year, month, day);
    }
    return deadline.toISOString();
  }
  \<close>
  The current time \<open>now\<close> and the offset \<open>tz\<close> of local time are inputs of the model.
\<close>

datatype offset = Days int | Handler int | Weekday int

definition re_bounded :: "string \<Rightarrow> re" where
  "re_bounded w = cats [WB, Str w, WB]"

definition re_in :: "string \<Rightarrow> re" where
  "re_in unit = cats [WB, Str ''in '', Grp 1 (Plus (Set [CD])), Str ('' '' @ unit), Opt (Str ''s''), WB]"

definition deadlinePatterns :: "(re \<times> offset) list" where
  "deadlinePatterns =
     [(re_bounded ''today'', Days 0),
      (re_bounded ''tomorrow'', Days 1),
      (re_bounded ''day after tomorrow'', Days 2),
      (re_bounded ''next week'', Days 7),
      (re_in ''day'', Handler 1),
      (re_in ''week'', Handler 7),
      (re_bounded ''on monday'', Weekday 1),
      (re_bounded ''on tuesday'', Weekday 2),
      (re_bounded ''on wednesday'', Weekday 3),
      (re_bounded ''on thursday'', Weekday 4),
      (re_bounded ''on friday'', Weekday 5),
      (re_bounded ''on saturday'', Weekday 6),
      (re_bounded ''on sunday'', Weekday 0),
      (re_bounded ''monday'', Weekday 1),
      (re_bounded ''tuesday'', Weekday 2),
      (re_bounded ''wednesday'', Weekday 3),
      (re_bounded ''thursday'', Weekday 4),
      (re_bounded ''friday'', Weekday 5)]"

fun first_rule :: "(re \<times> offset) list \<Rightarrow> string \<Rightarrow> (offset \<times> mstate) option" where
  "first_rule [] text = None"
| "first_rule ((pattern, dp) # rules) text =
     (case re_match False pattern text of
        Some m \<Rightarrow> Some (dp, m)
      | None \<Rightarrow> first_rule rules text)"

definition rule_days :: "int \<Rightarrow> int \<Rightarrow> offset \<Rightarrow> mstate \<Rightarrow> int" where
  "rule_days tz now dp m =
     (case dp of
        Days n \<Rightarrow> n
      | Handler k \<Rightarrow> parseInt (group_text 1 m) * k
      | Weekday w \<Rightarrow>
          (let currentDay = getDay tz now; daysUntil = w - currentDay
           in if daysUntil \<le> 0 then daysUntil + 7 else daysUntil))"

definition re_digit :: re where
  "re_digit = Set [CD]"

definition re_sep :: re where
  "re_sep = Set [C (CHR ''/''), C (CHR ''-'')]"

definition re_date :: re where
  "re_date =
     cats [WB, Grp 1 (Cat re_digit (Opt re_digit)), re_sep,
           Grp 2 (Cat re_digit (Opt re_digit)),
           Opt (Cat re_sep (Grp 3 (cats [re_digit, re_digit, Opt (Cat re_digit (Opt re_digit))]))),
           WB]"

definition rule_deadline :: "int \<Rightarrow> int \<Rightarrow> string \<Rightarrow> int option" where
  "rule_deadline tz now text =
     (let deadline = setDate tz (Some now) (getDate tz now + 1)
      in case first_rule deadlinePatterns text of
           None \<Rightarrow> deadline
         | Some (dp, m) \<Rightarrow> setDate tz deadline (getDate tz now + rule_days tz now dp m))"

definition deadline_date :: "int \<Rightarrow> int \<Rightarrow> string \<Rightarrow> int option" where
  "deadline_date tz now text =
     (let deadline = rule_deadline tz now text
      in case re_match False re_date text of
           None \<Rightarrow> deadline
         | Some dateMatch \<Rightarrow>
             (let month = parseInt (group_text 1 dateMatch) - 1;
                  day = parseInt (group_text 2 dateMatch);
                  year = (case group 3 dateMatch of
                            Some y \<Rightarrow> parseInt y
                          | None \<Rightarrow> getFullYear tz now)
              in new_Date tz year month day))"

definition extractDeadline :: "int \<Rightarrow> int \<Rightarrow> string \<Rightarrow> error + string" where
  "extractDeadline tz now text = toISOString (deadline_date tz now text)"

section \<open>Tasks and projects\<close>

text \<open>
  A task as \<open>formatTaskResult\<close> builds it, with the three tags \<open>parseTask\<close> adds
  (\<open>_parsedBy\<close>, \<open>_confidence\<close>, \<open>_rateLimited\<close>). The entries of the chunk list are
  chunk values when the task comes from the remote side or the rule-based parser, and
  optional chunk values in a task replayed from a learned pattern, whose chunk names can
  be undefined. The input of \<open>formatTaskResult\<close> is a draft whose fields may be missing.
\<close>

record 'c task =
  t_id :: string
  t_name :: string
  t_project :: string
  t_deadline :: string
  t_chunks :: "'c list"
  t_completed :: bool
  t_createdAt :: string
  t_parsedBy :: "string option"
  t_confidence :: "rat option"
  t_rateLimited :: "bool option"

record 'c draft =
  d_taskName :: "string option"
  d_name :: "string option"
  d_project :: "string option"
  d_deadline :: "string option"
  d_chunks :: "'c list option"

record project =
  pr_name :: string
  pr_normalized :: string
  usageCount :: int
  pr_createdAt :: string

text \<open>
  What a call reads from its surroundings: the offset of local time and the current time,
  and the identifiers \<open>generateId\<close> draws from \<open>Math.random\<close>, one for the task, one
  for each chunk and one for a learned pattern.
\<close>

record env =
  tz :: int
  now :: int
  task_id :: string
  chunk_id :: "nat \<Rightarrow> string"
  pattern_id :: string

text \<open>\<open>s || d\<close> on a string that may be missing: \<open>d\<close> when \<open>s\<close> is missing or empty.\<close>

definition str_or :: "string option \<Rightarrow> string \<Rightarrow> string" where
  "str_or s d = (case s of None \<Rightarrow> d | Some x \<Rightarrow> if x = [] then d else x)"

text \<open>\<open>s.charAt(0).toUpperCase() + s.slice(1)\<close>.\<close>

definition capitalize :: "string \<Rightarrow> string" where
  "capitalize s = toUpperCase (take 1 s) @ drop 1 s"

text \<open>
  \<^verbatim>\<open>
  learnProject(projectName) {
    const normalized = projectName.toLowerCase().trim();
    if (!this.userProjects.some(p => p.normalized === normalized)) {
      this.userProjects.push({ name: projectName, normalized, usageCount: 1,
                               createdAt: new Date().toISOString() });
      this.saveUserProjects();
    } else {
      const project = this.userProjects.find(p => p.normalized === normalized);
      if (project) project.usageCount++;
      this.saveUserProjects();
    }
  }
  findKnownProject(text) {
    const lowerText = text.toLowerCase();
    for (const project of this.userProjects) {
      if (lowerText.includes(project.normalized)) return project.name;
    }
    return null;
  }
  \<close>
\<close>

fun bump_first :: "string \<Rightarrow> project list \<Rightarrow> project list" where
  "bump_first nrm [] = []"
| "bump_first nrm (p # ps) =
     (if pr_normalized p = nrm then p\<lparr> usageCount := usageCount p + 1 \<rparr> # ps
      else p # bump_first nrm ps)"

definition learnProject :: "env \<Rightarrow> string \<Rightarrow> project list \<Rightarrow> project list" where
  "learnProject e projectName userProjects =
     (let nrm = trim (toLowerCase projectName)
      in if \<not> (\<exists>p \<in> set userProjects. pr_normalized p = nrm)
         then userProjects @ [\<lparr> pr_name = projectName, pr_normalized = nrm, usageCount = 1,
                                pr_createdAt = iso_string (now e) \<rparr>]
         else bump_first nrm userProjects)"

fun findKnownProject :: "project list \<Rightarrow> string \<Rightarrow> string option" where
  "findKnownProject [] text = None"
| "findKnownProject (p # ps) text =
     (if includes_str (toLowerCase text) (pr_normalized p) then Some (pr_name p)
      else findKnownProject ps text)"

section \<open>The chunk generator\<close>

text \<open>
  \<^verbatim>\<open>
  getLearnedChunksForTask(taskName) {
    const normalized = this.normalizeForMatching(taskName);
    for (const pattern of this.learnedPatterns) {
      if (this.patternsMatch(normalized, pattern.normalized) && pattern.chunks?.length > 0) {
        return pattern.chunks;
      }
    }
    return null;
  }
  \<close>
  \<open>generateChunks\<close> tests the lower-cased name against the task types in order (each a
  regular expression without flags, such as \<open>/presentation|deck|slides|pitch/\<close>), falls
  back to the default template, lets a learned chunk list override, and numbers the chunks.
\<close>

fun first_chunks :: "string \<Rightarrow> pattern list \<Rightarrow> string option list option" where
  "first_chunks nrm [] = None"
| "first_chunks nrm (p # ps) =
     (if patternsMatch nrm (normalized p)
         \<and> (case p_chunks p of None \<Rightarrow> False | Some cs \<Rightarrow> length cs > 0)
      then p_chunks p else first_chunks nrm ps)"

definition getLearnedChunksForTask :: "pattern list \<Rightarrow> string \<Rightarrow> string option list option" where
  "getLearnedChunksForTask learnedPatterns taskName =
     first_chunks (normalizeForMatching taskName) learnedPatterns"

definition taskTypes :: "(re \<times> string list) list" where
  "taskTypes =
     [(words [''presentation'', ''deck'', ''slides'', ''pitch''],
       [''Research & gather info'', ''Create outline'', ''Design slides'', ''Add content'',
        ''Review & polish'']),
      (words [''report'', ''document'', ''write'', ''article'', ''blog''],
       [''Outline structure'', ''Write first draft'', ''Review & edit'', ''Final polish'']),
      (words [''email'', ''message'', ''reply'', ''respond''],
       [''Draft message'', ''Review tone'', ''Send'']),
      (words [''meeting'', ''call'', ''interview''],
       [''Prepare agenda'', ''Gather materials'', ''Attend'', ''Follow up notes'']),
      (words [''design'', ''create'', ''make'', ''build''],
       [''Research inspiration'', ''Sketch concepts'', ''Create draft'', ''Refine details'']),
      (words [''review'', ''analyze'', ''audit''],
       [''Gather materials'', ''Initial review'', ''Deep analysis'', ''Write findings'']),
      (words [''plan'', ''strategy'', ''roadmap''],
       [''Research & context'', ''Brainstorm options'', ''Draft plan'', ''Review & finalize'']),
      (words [''fix'', ''debug'', ''solve'', ''repair''],
       [''Identify issue'', ''Research solution'', ''Implement fix'', ''Test & verify'']),
      (words [''learn'', ''study'', ''course'', ''read''],
       [''Set up environment'', ''First session'', ''Practice'', ''Review notes'']),
      (words [''buy'', ''purchase'', ''order'', ''shop''],
       [''Research options'', ''Compare prices'', ''Make purchase''])]"

fun first_type :: "(re \<times> string list) list \<Rightarrow> string \<Rightarrow> string list" where
  "first_type [] name = []"
| "first_type ((pattern, chunks) # types) name =
     (if re_test False pattern name then chunks else first_type types name)"

definition generateChunks :: "env \<Rightarrow> pattern list \<Rightarrow> string \<Rightarrow> chunkv list" where
  "generateChunks e learnedPatterns taskName =
     (let name = toLowerCase taskName;
          matched = first_type taskTypes name;
          chunkTemplates =
            (if length matched = 0 then [''Start task'', ''Main work'', ''Finish up'']
             else matched);
          names =
            (case getLearnedChunksForTask learnedPatterns name of
               Some learnedChunks \<Rightarrow>
                 if length learnedChunks > 0 then learnedChunks else map Some chunkTemplates
             | None \<Rightarrow> map Some chunkTemplates)
      in map (\<lambda>(i, n). CObj \<lparr> c_id = chunk_id e i, c_name = n, c_completed = False, c_order = i \<rparr>)
             (enumerate 0 names))"

section \<open>Formatting a task\<close>

text \<open>
  \<^verbatim>\<open>
  formatTaskResult(data) {
    return {
      id: this.generateId(),
      name: data.taskName || data.name || 'Untitled Task',
      project: data.project || 'Inbox',
      deadline: data.deadline || new Date(Date.now() + 86400000).toISOString(),
      chunks: data.chunks || this.generateChunks(data.taskName || data.name || ''),
      completed: false,
      createdAt: new Date().toISOString()
    };
  }
  \<close>
  \<open>gen\<close> is \<open>this.generateChunks\<close> at the chunk type of the draft.
\<close>

definition default_deadline :: "env \<Rightarrow> error + string" where
  "default_deadline e = toISOString (TimeClip (now e + 86400000))"

definition formatTaskResult :: "env \<Rightarrow> (string \<Rightarrow> 'c list) \<Rightarrow> 'c draft \<Rightarrow> error + 'c task" where
  "formatTaskResult e gen data =
     (case (case d_deadline data of
              None \<Rightarrow> default_deadline e
            | Some d \<Rightarrow> if d = [] then default_deadline e else Inr d) of
        Inl err \<Rightarrow> Inl err
      | Inr deadline \<Rightarrow>
          Inr \<lparr> t_id = task_id e,
                t_name = str_or (d_taskName data) (str_or (d_name data) ''Untitled Task''),
                t_project = str_or (d_project data) ''Inbox'',
                t_deadline = deadline,
                t_chunks =
                  (case d_chunks data of
                     Some cs \<Rightarrow> cs
                   | None \<Rightarrow> gen (str_or (d_taskName data) (str_or (d_name data) []))),
                t_completed = False,
                t_createdAt = iso_string (now e),
                t_parsedBy = None, t_confidence = None, t_rateLimited = None \<rparr>)"

section \<open>The rule-based parser\<close>

text \<open>
  \<^verbatim>\<open>
  ruleBasedParse(text) {
    const lowerText = text.toLowerCase();
    let taskName = text
      .replace(/\b(for|by|until|before|tomorrow|today|next week|on monday|on tuesday|on wednesday|on thursday|on friday|on saturday|on sunday)\b.*/gi, '')
      .replace(/\s+/g, ' ')
      .trim();
    taskName = taskName.charAt(0).toUpperCase() + taskName.slice(1);
    if (!taskName) taskName = text.charAt(0).toUpperCase() + text.slice(1);
    let project = 'Inbox';
    const projectPatterns = [
      /\bfor\s+(?:the\s+)?([A-Z][a-zA-Z0-9\s]+?)(?:\s+by|\s+until|\s+before|\s+tomorrow|\s+today|\s+next|\s+on\s+|$)/i,
      /\b(?:project|client|team)[\s:]+([A-Z][a-zA-Z0-9\s]+?)(?:\s+by|\s+until|\s+before|\s+tomorrow|\s+today|\s+next|\s+on\s+|$)/i,
    ];
    for (const pattern of projectPatterns) {
      const match = text.match(pattern);
      if (match) {
        project = match[1].trim();
        const knownProject = this.findKnownProject(project);
        if (knownProject) project = knownProject;
        break;
      }
    }
    const deadline = this.extractDeadline(lowerText);
    const chunks = this.generateChunks(taskName);
    if (project !== 'Inbox') {
      this.learnProject(project);
    }
    return this.formatTaskResult({ taskName, project, deadline, chunks });
  }
  \<close>
  The result is the task or the error raised on the way, with the project list as the call
  leaves it.
\<close>

definition re_cut :: re where
  "re_cut =
     cats [WB,
           Grp 1 (words [''for'', ''by'', ''until'', ''before'', ''tomorrow'', ''today'',
                         ''next week'', ''on monday'', ''on tuesday'', ''on wednesday'',
                         ''on thursday'', ''on friday'', ''on saturday'', ''on sunday'']),
           WB, Star Dot]"

definition re_sp1 :: re where
  "re_sp1 = Plus (Set [CS])"

definition re_project_name :: re where
  "re_project_name =
     Grp 1 (Cat (Set [R (CHR ''A'') (CHR ''Z'')])
                (LPlus (Set [R (CHR ''a'') (CHR ''z''), R (CHR ''A'') (CHR ''Z''),
                             R (CHR ''0'') (CHR ''9''), CS])))"

definition re_project_end :: re where
  "re_project_end =
     alts [Cat re_sp1 (Str ''by''), Cat re_sp1 (Str ''until''), Cat re_sp1 (Str ''before''),
           Cat re_sp1 (Str ''tomorrow''), Cat re_sp1 (Str ''today''), Cat re_sp1 (Str ''next''),
           cats [re_sp1, Str ''on'', re_sp1], Eol]"

definition projectPatterns :: "re list" where
  "projectPatterns =
     [cats [WB, Str ''for'', re_sp1, Opt (Cat (Str ''the'') re_sp1), re_project_name,
            re_project_end],
      cats [WB, words [''project'', ''client'', ''team''], Plus (Set [CS, C (CHR '':'')]),
            re_project_name, re_project_end]]"

fun first_project :: "re list \<Rightarrow> string \<Rightarrow> string option" where
  "first_project [] text = None"
| "first_project (pattern # patterns) text =
     (case re_match True pattern text of
        Some m \<Rightarrow> Some (trim (group_text 1 m))
      | None \<Rightarrow> first_project patterns text)"

definition extract_task_name :: "string \<Rightarrow> string" where
  "extract_task_name text =
     (let taskName = capitalize (trim (replace_all False re_spaces '' ''
                                         (replace_all True re_cut [] text)))
      in if taskName = [] then capitalize text else taskName)"

definition extract_project :: "project list \<Rightarrow> string \<Rightarrow> string" where
  "extract_project userProjects text =
     (case first_project projectPatterns text of
        None \<Rightarrow> ''Inbox''
      | Some project \<Rightarrow>
          (case findKnownProject userProjects project of
             Some knownProject \<Rightarrow> if knownProject = [] then project else knownProject
           | None \<Rightarrow> project))"

definition ruleBasedParse ::
  "env \<Rightarrow> pattern list \<Rightarrow> project list \<Rightarrow> string \<Rightarrow> (error + chunkv task) \<times> project list" where
  "ruleBasedParse e learnedPatterns userProjects text =
     (let lowerText = toLowerCase text;
          taskName = extract_task_name text;
          project = extract_project userProjects text
      in case extractDeadline (tz e) (now e) lowerText of
           Inl err \<Rightarrow> (Inl err, userProjects)
         | Inr deadline \<Rightarrow>
             (let chunks = generateChunks e learnedPatterns taskName;
                  userProjects' =
                    (if project \<noteq> ''Inbox'' then learnProject e project userProjects
                     else userProjects)
              in (formatTaskResult e (generateChunks e learnedPatterns)
                    \<lparr> d_taskName = Some taskName, d_name = None, d_project = Some project,
                      d_deadline = Some deadline, d_chunks = Some chunks \<rparr>,
                  userProjects')))"

section \<open>Replaying a learned pattern\<close>

text \<open>
  \<^verbatim>\<open>
  applyLearnedPatterns(input) {
    const match = this.findMatchingPattern(input);
    if (!match) return null;
    const pattern = match.pattern;
    return {
      taskName: this.applyPatternTemplate(input, pattern.taskNameTemplate),
      project: this.extractWithPattern(input, pattern.projectPattern) || pattern.defaultProject || 'Inbox',
      deadline: this.extractDeadline(input.toLowerCase()),
      chunks: pattern.chunks || this.generateChunks(input)
    };
  }
  applyPatternTemplate(input, template) {
    if (!template) return input.charAt(0).toUpperCase() + input.slice(1);
    return input.charAt(0).toUpperCase() + input.slice(1);
  }
  extractWithPattern(input, pattern) {
    if (!pattern) return null;
    const lowerInput = input.toLowerCase();
    if (pattern.keyword) {
      const index = lowerInput.indexOf(pattern.keyword);
      if (index >= 0) {
        const after = input.substring(index + pattern.keyword.length).trim();
        const words = after.split(/\s+/);
        if (words.length > 0) {
          return words[0].charAt(0).toUpperCase() + words[0].slice(1);
        }
      }
    }
    return null;
  }
  async parseLocally(input) {
    const text = input.trim();
    const patternResult = this.applyLearnedPatterns(text);
    if (patternResult) return this.formatTaskResult(patternResult);
    return this.ruleBasedParse(text);
  }
  \<close>
  The first piece of \<open>after.split(/\s+/)\<close>, for a trimmed \<open>after\<close>, is its part before
  the first white space.
\<close>

definition applyPatternTemplate :: "string \<Rightarrow> (string \<times> string option) option \<Rightarrow> string" where
  "applyPatternTemplate input template =
     (case template of None \<Rightarrow> capitalize input | Some _ \<Rightarrow> capitalize input)"

definition extractWithPattern :: "string \<Rightarrow> (string \<times> string) option \<Rightarrow> string option" where
  "extractWithPattern input pattern =
     (case pattern of
        None \<Rightarrow> None
      | Some (keyword, _) \<Rightarrow>
          if keyword = [] then None
          else (case indexOf (toLowerCase input) keyword of
                  None \<Rightarrow> None
                | Some index \<Rightarrow>
                    (let after = trim (drop (index + length keyword) input)
                     in Some (capitalize (takeWhile (\<lambda>c. \<not> is_space c) after)))))"

definition applyLearnedPatterns ::
  "env \<Rightarrow> pattern list \<Rightarrow> string \<Rightarrow> error + (chunkv option draft) option" where
  "applyLearnedPatterns e learnedPatterns input =
     (case findMatchingPattern learnedPatterns input of
        None \<Rightarrow> Inr None
      | Some (pattern, _) \<Rightarrow>
          (case extractDeadline (tz e) (now e) (toLowerCase input) of
             Inl err \<Rightarrow> Inl err
           | Inr deadline \<Rightarrow>
               Inr (Some
                 \<lparr> d_taskName = Some (applyPatternTemplate input (taskNameTemplate pattern)),
                   d_name = None,
                   d_project = Some (str_or (extractWithPattern input (projectPattern pattern))
                                            (str_or (defaultProject pattern) ''Inbox'')),
                   d_deadline = Some deadline,
                   d_chunks = Some (case p_chunks pattern of
                                      Some cs \<Rightarrow> map (map_option CStr) cs
                                    | None \<Rightarrow> map Some (generateChunks e learnedPatterns input)) \<rparr>)))"

definition lift_task :: "chunkv task \<Rightarrow> chunkv option task" where
  "lift_task t =
     \<lparr> t_id = t_id t, t_name = t_name t, t_project = t_project t, t_deadline = t_deadline t,
       t_chunks = map Some (t_chunks t), t_completed = t_completed t,
       t_createdAt = t_createdAt t, t_parsedBy = t_parsedBy t, t_confidence = t_confidence t,
       t_rateLimited = t_rateLimited t \<rparr>"

definition parseLocally ::
  "env \<Rightarrow> pattern list \<Rightarrow> project list \<Rightarrow> string
     \<Rightarrow> (error + chunkv option task) \<times> project list" where
  "parseLocally e learnedPatterns userProjects input =
     (let text = trim input
      in case applyLearnedPatterns e learnedPatterns text of
           Inl err \<Rightarrow> (Inl err, userProjects)
         | Inr (Some patternResult) \<Rightarrow>
             (formatTaskResult e (\<lambda>name. map Some (generateChunks e learnedPatterns name))
                patternResult,
              userProjects)
         | Inr None \<Rightarrow>
             (case ruleBasedParse e learnedPatterns userProjects text of
                (Inl err, ps) \<Rightarrow> (Inl err, ps)
              | (Inr t, ps) \<Rightarrow> (Inr (lift_task t), ps)))"

section \<open>The decision engine\<close>

text \<open>
  The configuration after the constructor has merged the defaults (a threshold of 15
  seconds, a minimum confidence of 0.75, 5 free and 50 paid calls a day), and the state of
  the engine: learned patterns, known projects, statistics and today's call count.
  Confidences and durations are rational numbers; the source adds doubles, and
  \<open>estimateLocalConfidence\<close> is the exact sum of the same terms.
\<close>

record config =
  maxFreeCallsPerDay :: int
  maxPaidCallsPerDay :: int
  voiceLengthThresholdSeconds :: rat
  minConfidenceForLocal :: rat
  isPaidUser :: bool

definition default_config :: config where
  "default_config =
     \<lparr> maxFreeCallsPerDay = 5, maxPaidCallsPerDay = 50, voiceLengthThresholdSeconds = 15,
       minConfidenceForLocal = 3 / 4, isPaidUser = False \<rparr>"

record stats =
  totalInputs :: nat
  localParses :: nat
  cloudParses :: nat

record ai =
  cfg :: config
  learnedPatterns :: "pattern list"
  userProjects :: "project list"
  userStats :: stats
  apiCallsToday :: int

datatype strategy = Local | Cloud

record decision =
  strategy :: strategy
  confidence :: rat
  reason :: string

text \<open>
  \<^verbatim>\<open>
  estimateLocalConfidence(input) {
    let confidence = 0.5;
    const text = input.toLowerCase();
    const clearPatterns = [
      /^(finish|complete|do|make|create|write|send|call|email|buy|get|fix|update|review)/i,
      /(by|until|before|tomorrow|today|monday|tuesday|wednesday|thursday|friday|next week)/i,
      /(for|project|client|team|work|meeting)/i
    ];
    clearPatterns.forEach(pattern => { if (pattern.test(text)) confidence += 0.1; });
    const knownProject = this.findKnownProject(text);
    if (knownProject) confidence += 0.15;
    if (text.includes(' and ') && text.includes(' then ')) confidence -= 0.2;
    if (text.split(' ').length > 20) confidence -= 0.15;
    if ((text.match(/,/g) || []).length > 3) confidence -= 0.1;
    return Math.max(0, Math.min(1, confidence));
  }
  \<close>
\<close>

definition clearPatterns :: "re list" where
  "clearPatterns =
     [Cat Bol (Grp 1 (words [''finish'', ''complete'', ''do'', ''make'', ''create'', ''write'',
                             ''send'', ''call'', ''email'', ''buy'', ''get'', ''fix'', ''update'',
                             ''review''])),
      Grp 1 (words [''by'', ''until'', ''before'', ''tomorrow'', ''today'', ''monday'', ''tuesday'',
                    ''wednesday'', ''thursday'', ''friday'', ''next week'']),
      Grp 1 (words [''for'', ''project'', ''client'', ''team'', ''work'', ''meeting''])]"

definition estimateLocalConfidence :: "project list \<Rightarrow> string \<Rightarrow> rat" where
  "estimateLocalConfidence projects input =
     (let text = toLowerCase input;
          c0 = 1 / 2 + (\<Sum>pattern \<leftarrow> clearPatterns. if re_test True pattern text then 1 / 10 else 0);
          c1 = (if str_or (findKnownProject projects text) [] \<noteq> [] then c0 + 15 / 100 else c0);
          c2 = (if includes_str text '' and '' \<and> includes_str text '' then '' then c1 - 2 / 10 else c1);
          c3 = (if length (split_sp text) > 20 then c2 - 15 / 100 else c2);
          c4 = (if count_matches False (Str '','') text > 3 then c3 - 1 / 10 else c3)
      in max 0 (min 1 c4))"

text \<open>
  \<^verbatim>\<open>
  detectsMultipleTasks(input) {
    const text = input.toLowerCase();
    const multiTaskIndicators = [
      /\b(first|then|after that|also|and then|next|finally)\b/g,
      /\d+\)\s/g,
      /<bullet>|-\s/g,
    ];
    let score = 0;
    multiTaskIndicators.forEach(pattern => {
      const matches = text.match(pattern);
      if (matches) score += matches.length;
    });
    const andCount = (text.match(/\band\b/g) || []).length;
    const verbCount = (text.match(/\b(finish|complete|do|make|create|write|send|call|email|buy|get|fix|update|review|prepare|schedule)\b/g) || []).length;
    if (andCount >= 2 && verbCount >= 2) score += 2;
    return score >= 2;
  }
  \<close>
  The first branch of the third expression is a bullet sign stored as three characters, one
  of which (the euro sign) lies above 255: no string of the model contains it, and the
  branch is the empty class.
\<close>

definition multiTaskIndicators :: "re list" where
  "multiTaskIndicators =
     [cats [WB, Grp 1 (words [''first'', ''then'', ''after that'', ''also'', ''and then'', ''next'',
                              ''finally'']), WB],
      cats [Plus (Set [CD]), Str '')'', Set [CS]],
      Alt (Set []) (Cat (Str ''-'') (Set [CS]))]"

definition re_action_verb :: re where
  "re_action_verb =
     cats [WB, Grp 1 (words [''finish'', ''complete'', ''do'', ''make'', ''create'', ''write'',
                             ''send'', ''call'', ''email'', ''buy'', ''get'', ''fix'', ''update'',
                             ''review'', ''prepare'', ''schedule'']), WB]"

definition detectsMultipleTasks :: "string \<Rightarrow> bool" where
  "detectsMultipleTasks input =
     (let text = toLowerCase input;
          score = (\<Sum>pattern \<leftarrow> multiTaskIndicators. count_matches False pattern text);
          andCount = count_matches False (re_bounded ''and'') text;
          verbCount = count_matches False re_action_verb text;
          score' = (if andCount \<ge> 2 \<and> verbCount \<ge> 2 then score + 2 else score)
      in score' \<ge> 2)"

text \<open>
  \<^verbatim>\<open>
  isAmbiguous(input) {
    const text = input.toLowerCase();
    const vaguePatterns = [
      /^(something|stuff|things?|that thing)\b/,
      /\b(maybe|probably|might|could|not sure|i think)\b/,
      /\?\s*$/,
    ];
    return vaguePatterns.some(pattern => pattern.test(text));
  }
  \<close>
\<close>

definition vaguePatterns :: "re list" where
  "vaguePatterns =
     [cats [Bol, Grp 1 (alts [Str ''something'', Str ''stuff'', Cat (Str ''thing'') (Opt (Str ''s'')),
                              Str ''that thing'']), WB],
      cats [WB, Grp 1 (words [''maybe'', ''probably'', ''might'', ''could'', ''not sure'',
                              ''i think'']), WB],
      cats [Str ''?'', Star (Set [CS]), Eol]]"

definition isAmbiguous :: "string \<Rightarrow> bool" where
  "isAmbiguous input =
     (let text = toLowerCase input in \<exists>pattern \<in> set vaguePatterns. re_test False pattern text)"

text \<open>
  \<^verbatim>\<open>
  decideParsingStrategy(input, voiceDurationSeconds, forceCloud, isCoachMode) {
    if (isCoachMode) {
      return { strategy: 'cloud', confidence: 0, reason: 'coach_mode' };
    }
    if (forceCloud) {
      return { strategy: 'cloud', confidence: 0, reason: 'forced' };
    }
    if (voiceDurationSeconds > this.config.voiceLengthThresholdSeconds) {
      return { strategy: 'cloud', confidence: 0, reason: 'long_voice_input' };
    }
    const patternMatch = this.findMatchingPattern(input);
    if (patternMatch && patternMatch.confidence >= this.config.minConfidenceForLocal) {
      return { strategy: 'local', confidence: patternMatch.confidence, reason: 'learned_pattern' };
    }
    const localConfidence = this.estimateLocalConfidence(input);
    if (localConfidence >= this.config.minConfidenceForLocal) {
      return { strategy: 'local', confidence: localConfidence, reason: 'high_local_confidence' };
    }
    if (this.detectsMultipleTasks(input)) {
      return { strategy: 'cloud', confidence: localConfidence, reason: 'multiple_tasks' };
    }
    if (this.isAmbiguous(input)) {
      return { strategy: 'cloud', confidence: localConfidence, reason: 'ambiguous' };
    }
    if (input.split(' ').length < 10) {
      return { strategy: 'local', confidence: 0.6, reason: 'short_simple_input' };
    }
    return { strategy: 'cloud', confidence: localConfidence, reason: 'uncertain' };
  }
  \<close>
\<close>

definition pattern_confident :: "ai \<Rightarrow> string \<Rightarrow> rat option" where
  "pattern_confident st input =
     (case findMatchingPattern (learnedPatterns st) input of
        None \<Rightarrow> None
      | Some (_, c) \<Rightarrow> if c \<ge> minConfidenceForLocal (cfg st) then Some c else None)"

definition decideParsingStrategy :: "ai \<Rightarrow> string \<Rightarrow> rat \<Rightarrow> bool \<Rightarrow> bool \<Rightarrow> decision" where
  "decideParsingStrategy st input voiceDurationSeconds forceCloud isCoachMode =
     (if isCoachMode then
        \<lparr> strategy = Cloud, confidence = 0, reason = ''coach_mode'' \<rparr>
      else if forceCloud then
        \<lparr> strategy = Cloud, confidence = 0, reason = ''forced'' \<rparr>
      else if voiceDurationSeconds > voiceLengthThresholdSeconds (cfg st) then
        \<lparr> strategy = Cloud, confidence = 0, reason = ''long_voice_input'' \<rparr>
      else
        (case pattern_confident st input of
           Some c \<Rightarrow> \<lparr> strategy = Local, confidence = c, reason = ''learned_pattern'' \<rparr>
         | None \<Rightarrow>
             (let localConfidence = estimateLocalConfidence (userProjects st) input
              in if localConfidence \<ge> minConfidenceForLocal (cfg st) then
                   \<lparr> strategy = Local, confidence = localConfidence,
                     reason = ''high_local_confidence'' \<rparr>
                 else if detectsMultipleTasks input then
                   \<lparr> strategy = Cloud, confidence = localConfidence, reason = ''multiple_tasks'' \<rparr>
                 else if isAmbiguous input then
                   \<lparr> strategy = Cloud, confidence = localConfidence, reason = ''ambiguous'' \<rparr>
                 else if length (split_sp input) < 10 then
                   \<lparr> strategy = Local, confidence = 6 / 10, reason = ''short_simple_input'' \<rparr>
                 else
                   \<lparr> strategy = Cloud, confidence = localConfidence, reason = ''uncertain'' \<rparr>)))"

section \<open>The entry point\<close>

text \<open>
  \<^verbatim>\<open>
  canMakeApiCall() {
    const isPaidUser = this.config.isPaidUser || false;
    const limit = isPaidUser ? this.config.maxPaidCallsPerDay : this.config.maxFreeCallsPerDay;
    return this.apiCallsToday < limit;
  }
  async parseWithClaude(input, isCoachMode = false) {
    try {
      const response = await fetch(this.config.apiEndpoint, { ... });
      if (!response.ok) throw new Error(`API error: ${response.status}`);
      const result = await response.json();
      return this.formatTaskResult(result);
    } catch (error) {
      return this.ruleBasedParse(input);
    }
  }
  \<close>
  The outcome of the exchange with the remote side is an input of the model: the parsed
  answer, or \<open>None\<close> when the request fails, the status is not ok or the body is no JSON.
\<close>

definition canMakeApiCall :: "ai \<Rightarrow> bool" where
  "canMakeApiCall st =
     (let limit = (if isPaidUser (cfg st) then maxPaidCallsPerDay (cfg st)
                   else maxFreeCallsPerDay (cfg st))
      in apiCallsToday st < limit)"

definition parseWithClaude ::
  "env \<Rightarrow> chunkv draft option \<Rightarrow> pattern list \<Rightarrow> project list \<Rightarrow> string
     \<Rightarrow> (error + chunkv task) \<times> project list" where
  "parseWithClaude e response patterns projects input =
     (case response of
        None \<Rightarrow> ruleBasedParse e patterns projects input
      | Some result \<Rightarrow>
          (case formatTaskResult e (generateChunks e patterns) result of
             Inr t \<Rightarrow> (Inr t, projects)
           | Inl _ \<Rightarrow> ruleBasedParse e patterns projects input))"

text \<open>
  \<^verbatim>\<open>
  async parseTask(input, options = {}) {
    const { voiceDurationSeconds = 0, forceCloud = false, isCoachMode = false } = options;
    this.userStats.totalInputs = (this.userStats.totalInputs || 0) + 1;
    const decision = this.decideParsingStrategy(input, voiceDurationSeconds, forceCloud, isCoachMode);
    let result;
    if (decision.strategy === 'local') {
      result = await this.parseLocally(input);
      result._parsedBy = 'local';
      result._confidence = decision.confidence;
      this.userStats.localParses = (this.userStats.localParses || 0) + 1;
    } else {
      if (!this.canMakeApiCall()) {
        result = await this.parseLocally(input);
        result._parsedBy = 'local_fallback';
        result._rateLimited = true;
      } else {
        result = await this.parseWithClaude(input, isCoachMode);
        result._parsedBy = 'claude';
        this.learnFromClaudeResponse(input, result);
        this.incrementApiCalls();
        this.userStats.cloudParses = (this.userStats.cloudParses || 0) + 1;
      }
    }
    this.saveUserStats();
    return result;
  }
  \<close>
  The result is the task, or the error that rejects the promise, with the state as the call
  leaves it.
\<close>

record options =
  voiceDurationSeconds :: rat
  forceCloud :: bool
  isCoachMode :: bool


definition task_view :: "chunkv task \<Rightarrow> parsed" where
  "task_view t = \<lparr> r_name = Some (t_name t), r_project = t_project t, r_chunks = Some (t_chunks t) \<rparr>"

definition count_input :: "ai \<Rightarrow> ai" where
  "count_input st = st\<lparr> userStats := (userStats st)\<lparr> totalInputs := totalInputs (userStats st) + 1 \<rparr> \<rparr>"

definition parseTask ::
  "env \<Rightarrow> chunkv draft option \<Rightarrow> ai \<Rightarrow> string \<Rightarrow> options \<Rightarrow> (error + chunkv option task) \<times> ai" where
  "parseTask e response st0 input opts =
     (let st = count_input st0;
          decision = decideParsingStrategy st input (voiceDurationSeconds opts) (forceCloud opts)
                       (isCoachMode opts)
      in if strategy decision = Local then
           (case parseLocally e (learnedPatterns st) (userProjects st) input of
              (Inl err, ps) \<Rightarrow> (Inl err, st\<lparr> userProjects := ps \<rparr>)
            | (Inr result, ps) \<Rightarrow>
                (Inr (result\<lparr> t_parsedBy := Some ''local'',
                              t_confidence := Some (confidence decision) \<rparr>),
                 st\<lparr> userProjects := ps,
                     userStats := (userStats st)\<lparr> localParses := localParses (userStats st) + 1 \<rparr> \<rparr>))
         else if \<not> canMakeApiCall st then
           (case parseLocally e (learnedPatterns st) (userProjects st) input of
              (Inl err, ps) \<Rightarrow> (Inl err, st\<lparr> userProjects := ps \<rparr>)
            | (Inr result, ps) \<Rightarrow>
                (Inr (result\<lparr> t_parsedBy := Some ''local_fallback'', t_rateLimited := Some True \<rparr>),
                 st\<lparr> userProjects := ps \<rparr>))
         else
           (case parseWithClaude e response (learnedPatterns st) (userProjects st) input of
              (Inl err, ps) \<Rightarrow> (Inl err, st\<lparr> userProjects := ps \<rparr>)
            | (Inr result0, ps) \<Rightarrow>
                (let result = result0\<lparr> t_parsedBy := Some ''claude'' \<rparr>
                 in (Inr (lift_task result),
                     st\<lparr> userProjects := ps,
                         learnedPatterns :=
                           learnFromClaudeResponse (pattern_id e) (iso_string (now e)) input
                             (task_view result) (learnedPatterns st),
                         apiCallsToday := apiCallsToday st + 1,
                         userStats := (userStats st)\<lparr> cloudParses := cloudParses (userStats st) + 1 \<rparr> \<rparr>))))"

section \<open>The request handler\<close>








section \<open>Plain keys\<close>

text \<open>
  The keys on which the normalizer is compared with itself below: the empty key, or
  tokens separated by single spaces, each token a non-empty run of small letters, digits
  and underscores that is no stop word, day name or relative-time word and not a number,
  with no \<open>next\<close> directly before \<open>week\<close>. These are the normalized strings that
  hold no placeholder.
\<close>

definition key_char :: "char \<Rightarrow> bool" where
  "key_char c = (is_lower c \<or> is_digit c \<or> c = CHR ''_'')"

definition plain_token :: "string \<Rightarrow> bool" where
  "plain_token t =
     (t \<noteq> [] \<and> (\<forall>c \<in> set t. key_char c) \<and> t \<notin> set stop_words \<and> t \<notin> set day_words
      \<and> t \<notin> set time_words \<and> \<not> (\<forall>c \<in> set t. is_digit c))"

definition plain_key :: "string \<Rightarrow> bool" where
  "plain_key y =
     (y = [] \<or>
      ((\<forall>t \<in> set (split_sp y). plain_token t)
       \<and> (''next'', ''week'') \<notin> set (zip (split_sp y) (tl (split_sp y)))))"

section \<open>Properties of the pattern matcher\<close>

lemma split_sp_nonempty: "split_sp s \<noteq> []"
  by (induction s) (auto split: list.splits)

lemma count_matching_size:
  "count_matching xs ys = size {#w \<in># mset xs. w \<in> set ys#}"
  by (simp add: count_matching_def flip: mset_filter)

lemma inter_le_count: "size (mset xs \<inter># mset ys) \<le> count_matching xs ys"
proof -
  have "mset xs \<inter># mset ys \<subseteq># {#w \<in># mset xs. w \<in> set ys#}"
  proof (rule mset_subset_eqI)
    fix w
    show "count (mset xs \<inter># mset ys) w \<le> count {#w \<in># mset xs. w \<in> set ys#} w"
    proof (cases "w \<in> set ys")
      case True
      then show ?thesis by simp
    next
      case False
      then have c0: "count (mset ys) w = 0" by (simp add: count_eq_zero_iff)
      have "count (mset xs \<inter># mset ys) w = min (count (mset xs) w) (count (mset ys) w)"
        by simp
      also have "\<dots> = 0" unfolding c0 by simp
      finally show ?thesis by simp
    qed
  qed
  then show ?thesis
    unfolding count_matching_size by (rule size_mset_mono)
qed

lemma inter_eq_count_distinct:
  assumes "distinct xs"
  shows "size (mset xs \<inter># mset ys) = count_matching xs ys"
proof -
  have "mset xs \<inter># mset ys = {#w \<in># mset xs. w \<in> set ys#}"
  proof (rule multiset_eqI)
    fix w
    have le: "count (mset xs) w \<le> 1" using assms by (simp add: distinct_count_atmost_1)
    show "count (mset xs \<inter># mset ys) w = count {#w \<in># mset xs. w \<in> set ys#} w"
    proof (cases "w \<in> set ys")
      case True
      then have ge: "1 \<le> count (mset ys) w"
        by (metis One_nat_def Suc_leI count_greater_zero_iff set_mset_mset)
      have "count (mset xs \<inter># mset ys) w = min (count (mset xs) w) (count (mset ys) w)"
        by simp
      also have "\<dots> = count (mset xs) w" using le ge by linarith
      finally show ?thesis using True by simp
    next
      case False
      then have c0: "count (mset ys) w = 0" by (simp add: count_eq_zero_iff)
      have "count (mset xs \<inter># mset ys) w = min (count (mset xs) w) (count (mset ys) w)"
        by simp
      also have "\<dots> = 0" unfolding c0 by simp
      finally show ?thesis using False by simp
    qed
  qed
  then show ?thesis by (simp add: count_matching_size)
qed

lemma patternsMatch_iff:
  "patternsMatch a b \<longleftrightarrow>
     7 * max (length (split_sp a)) (length (split_sp b))
       \<le> 10 * count_matching (split_sp a) (split_sp b)"
proof -
  let ?n = "max (length (split_sp a)) (length (split_sp b))"
  let ?m = "count_matching (split_sp a) (split_sp b)"
  have pos: "0 < ?n" using split_sp_nonempty[of a] split_sp_nonempty[of b] by (simp add: max_def)
  have "patternsMatch a b \<longleftrightarrow> (7::rat) / 10 \<le> of_nat ?m / of_nat ?n"
    by (simp add: patternsMatch_def similarity_def Let_def)
  also have "\<dots> \<longleftrightarrow> (7::rat) * of_nat ?n \<le> 10 * of_nat ?m"
    using pos by (simp add: field_simps)
  also have "\<dots> \<longleftrightarrow> (of_nat (7 * ?n) :: rat) \<le> of_nat (10 * ?m)"
    by simp
  also have "\<dots> \<longleftrightarrow> 7 * ?n \<le> 10 * ?m"
    by (simp only: of_nat_le_iff)
  finally show ?thesis .
qed

lemma spec_patternsMatch_iff:
  "spec_patternsMatch a b \<longleftrightarrow>
     7 * max (length (split_sp a)) (length (split_sp b))
       \<le> 10 * size (mset (split_sp a) \<inter># mset (split_sp b))"
proof -
  let ?n = "max (length (split_sp a)) (length (split_sp b))"
  let ?m = "size (mset (split_sp a) \<inter># mset (split_sp b))"
  have pos: "0 < ?n" using split_sp_nonempty[of a] split_sp_nonempty[of b] by (simp add: max_def)
  have "spec_patternsMatch a b \<longleftrightarrow> (7::rat) / 10 \<le> of_nat ?m / of_nat ?n"
    by (simp add: spec_patternsMatch_def spec_similarity_def Let_def)
  also have "\<dots> \<longleftrightarrow> (7::rat) * of_nat ?n \<le> 10 * of_nat ?m"
    using pos by (simp add: field_simps)
  also have "\<dots> \<longleftrightarrow> (of_nat (7 * ?n) :: rat) \<le> of_nat (10 * ?m)"
    by simp
  also have "\<dots> \<longleftrightarrow> 7 * ?n \<le> 10 * ?m"
    by (simp only: of_nat_le_iff)
  finally show ?thesis .
qed

lemma first_matching_None:
  "first_matching nrm ps = None \<longleftrightarrow> (\<forall>p \<in> set ps. \<not> patternsMatch nrm (normalized p))"
  by (induction ps) auto

lemma first_matching_Some:
  "first_matching nrm ps = Some m \<longleftrightarrow>
     (\<exists>i < length ps. m = (ps ! i, rate_or (successRate (ps ! i)))
        \<and> patternsMatch nrm (normalized (ps ! i))
        \<and> (\<forall>j < i. \<not> patternsMatch nrm (normalized (ps ! j))))"
proof (induction ps)
  case Nil
  then show ?case by simp
next
  case (Cons p ps)
  show ?case
  proof (cases "patternsMatch nrm (normalized p)")
    case True
    have "(\<exists>i < length (p # ps). m = ((p # ps) ! i, rate_or (successRate ((p # ps) ! i)))
        \<and> patternsMatch nrm (normalized ((p # ps) ! i))
        \<and> (\<forall>j < i. \<not> patternsMatch nrm (normalized ((p # ps) ! j))))
       \<longleftrightarrow> m = (p, rate_or (successRate p))" (is "?L \<longleftrightarrow> ?R")
    proof
      assume ?L
      then obtain i where i: "i < length (p # ps)"
        "m = ((p # ps) ! i, rate_or (successRate ((p # ps) ! i)))"
        "\<forall>j < i. \<not> patternsMatch nrm (normalized ((p # ps) ! j))" by blast
      have "i = 0"
      proof (rule ccontr)
        assume "i \<noteq> 0"
        then have "0 < i" by simp
        with i(3) have "\<not> patternsMatch nrm (normalized ((p # ps) ! 0))" by blast
        with True show False by simp
      qed
      with i(2) show ?R by simp
    next
      assume ?R
      with True show ?L by (intro exI[of _ 0]) simp
    qed
    with True show ?thesis by auto
  next
    case False
    have "(\<exists>i < length (p # ps). m = ((p # ps) ! i, rate_or (successRate ((p # ps) ! i)))
        \<and> patternsMatch nrm (normalized ((p # ps) ! i))
        \<and> (\<forall>j < i. \<not> patternsMatch nrm (normalized ((p # ps) ! j))))
       \<longleftrightarrow> (\<exists>i < length ps. m = (ps ! i, rate_or (successRate (ps ! i)))
        \<and> patternsMatch nrm (normalized (ps ! i))
        \<and> (\<forall>j < i. \<not> patternsMatch nrm (normalized (ps ! j))))" (is "?L \<longleftrightarrow> ?R")
    proof
      assume ?L
      then obtain i where i: "i < length (p # ps)"
        "m = ((p # ps) ! i, rate_or (successRate ((p # ps) ! i)))"
        "patternsMatch nrm (normalized ((p # ps) ! i))"
        "\<forall>j < i. \<not> patternsMatch nrm (normalized ((p # ps) ! j))" by blast
      from i(3) False obtain k where k: "i = Suc k" by (cases i) auto
      have "\<forall>j < k. \<not> patternsMatch nrm (normalized (ps ! j))"
      proof (intro allI impI)
        fix j assume "j < k"
        then have "Suc j < i" using k by simp
        with i(4) have "\<not> patternsMatch nrm (normalized ((p # ps) ! Suc j))" by blast
        then show "\<not> patternsMatch nrm (normalized (ps ! j))" by simp
      qed
      with i k show ?R by (intro exI[of _ k]) simp
    next
      assume ?R
      then obtain i where i: "i < length ps"
        "m = (ps ! i, rate_or (successRate (ps ! i)))"
        "patternsMatch nrm (normalized (ps ! i))"
        "\<forall>j < i. \<not> patternsMatch nrm (normalized (ps ! j))" by blast
      have "\<forall>j < Suc i. \<not> patternsMatch nrm (normalized ((p # ps) ! j))"
      proof (intro allI impI)
        fix j assume "j < Suc i"
        then show "\<not> patternsMatch nrm (normalized ((p # ps) ! j))"
          using False i(4) by (cases j) auto
      qed
      with i show ?L by (intro exI[of _ "Suc i"]) simp
    qed
    with False Cons.IH show ?thesis by simp
  qed
qed

text \<open>
  C3 (as the code has it). \<open>patternsMatch a b\<close> holds exactly when the number of tokens of
  \<open>a\<close>, counted with their multiplicity in \<open>a\<close>, that occur in \<open>b\<close> is at least 0.7 of
  the larger token count, the tokens being the pieces between single spaces. Every pair
  the multiset similarity accepts is accepted, and the two agree when no token of \<open>a\<close> is
  repeated. \<open>findMatchingPattern\<close> returns the first pattern in store order whose key the
  normalized input matches, with its success rate (0.8 when missing), and nothing when no
  pattern matches.
\<close>

theorem patternsMatch_first_in_store_order:
  "(patternsMatch a b \<longleftrightarrow>
      7 * max (length (split_sp a)) (length (split_sp b))
        \<le> 10 * size {#w \<in># mset (split_sp a). w \<in> set (split_sp b)#})
   \<and> (spec_patternsMatch a b \<longrightarrow> patternsMatch a b)
   \<and> (distinct (split_sp a) \<longrightarrow> patternsMatch a b = spec_patternsMatch a b)
   \<and> (findMatchingPattern ps input = None \<longleftrightarrow>
        (\<forall>p \<in> set ps. \<not> patternsMatch (normalizeForMatching input) (normalized p)))
   \<and> (findMatchingPattern ps input = Some m \<longleftrightarrow>
        (\<exists>i < length ps. m = (ps ! i, rate_or (successRate (ps ! i)))
           \<and> patternsMatch (normalizeForMatching input) (normalized (ps ! i))
           \<and> (\<forall>j < i. \<not> patternsMatch (normalizeForMatching input) (normalized (ps ! j)))))"
proof (intro conjI impI)
  show "patternsMatch a b \<longleftrightarrow>
      7 * max (length (split_sp a)) (length (split_sp b))
        \<le> 10 * size {#w \<in># mset (split_sp a). w \<in> set (split_sp b)#}"
    by (simp only: patternsMatch_iff count_matching_size)
next
  assume "spec_patternsMatch a b"
  then have "7 * max (length (split_sp a)) (length (split_sp b))
       \<le> 10 * size (mset (split_sp a) \<inter># mset (split_sp b))"
    by (simp only: spec_patternsMatch_iff)
  also have "\<dots> \<le> 10 * count_matching (split_sp a) (split_sp b)"
    using inter_le_count[of "split_sp a" "split_sp b"] by simp
  finally show "patternsMatch a b" by (simp only: patternsMatch_iff)
next
  assume "distinct (split_sp a)"
  then show "patternsMatch a b = spec_patternsMatch a b"
    by (simp only: patternsMatch_iff spec_patternsMatch_iff inter_eq_count_distinct)
next
  show "findMatchingPattern ps input = None \<longleftrightarrow>
        (\<forall>p \<in> set ps. \<not> patternsMatch (normalizeForMatching input) (normalized p))"
    by (simp only: findMatchingPattern_def first_matching_None)
next
  show "findMatchingPattern ps input = Some m \<longleftrightarrow>
        (\<exists>i < length ps. m = (ps ! i, rate_or (successRate (ps ! i)))
           \<and> patternsMatch (normalizeForMatching input) (normalized (ps ! i))
           \<and> (\<forall>j < i. \<not> patternsMatch (normalizeForMatching input) (normalized (ps ! j))))"
    by (simp only: findMatchingPattern_def first_matching_Some)
qed

text \<open>
  A store of three patterns and the input \<open>Buy the milk, eggs!\<close>: the first pattern does
  not match, the second does with similarity 3/4 and is returned with its rate 1/2,
  although the third matches the key in full.
\<close>

theorem patternsMatch_first_in_store_order_witness:
  "spec_patternsMatch ''buy milk now'' ''buy milk now please''
   \<and> patternsMatch ''buy milk now'' ''buy milk now please''
   \<and> distinct (split_sp ''buy milk now'')
   \<and> similarity (normalizeForMatching ''Buy the milk, eggs!'') ''buy milk eggs'' = 1
   \<and> findMatchingPattern
        [\<lparr> p_id = ''p1'', normalized = ''walk dog'', originalInput = ''walk the dog'',
            taskNameTemplate = None, projectPattern = None, defaultProject = None,
            p_chunks = None, p_createdAt = [], useCount = 1, successRate = None \<rparr>,
         \<lparr> p_id = ''p2'', normalized = ''buy milk eggs bread'', originalInput = ''buy milk, eggs, bread'',
            taskNameTemplate = None, projectPattern = None, defaultProject = None,
            p_chunks = None, p_createdAt = [], useCount = 1, successRate = Some (1 / 2) \<rparr>,
         \<lparr> p_id = ''p3'', normalized = ''buy milk eggs'', originalInput = ''buy milk, eggs'',
            taskNameTemplate = None, projectPattern = None, defaultProject = None,
            p_chunks = None, p_createdAt = [], useCount = 1, successRate = Some 1 \<rparr>]
        ''Buy the milk, eggs!''
      = Some (\<lparr> p_id = ''p2'', normalized = ''buy milk eggs bread'', originalInput = ''buy milk, eggs, bread'',
            taskNameTemplate = None, projectPattern = None, defaultProject = None,
            p_chunks = None, p_createdAt = [], useCount = 1, successRate = Some (1 / 2) \<rparr>, 1 / 2)"
proof -
  let ?p1 = "\<lparr> p_id = ''p1'', normalized = ''walk dog'', originalInput = ''walk the dog'',
            taskNameTemplate = None, projectPattern = None, defaultProject = None,
            p_chunks = None, p_createdAt = [], useCount = 1, successRate = None \<rparr>"
  let ?p2 = "\<lparr> p_id = ''p2'', normalized = ''buy milk eggs bread'', originalInput = ''buy milk, eggs, bread'',
            taskNameTemplate = None, projectPattern = None, defaultProject = None,
            p_chunks = None, p_createdAt = [], useCount = 1, successRate = Some (1 / 2) \<rparr>"
  let ?p3 = "\<lparr> p_id = ''p3'', normalized = ''buy milk eggs'', originalInput = ''buy milk, eggs'',
            taskNameTemplate = None, projectPattern = None, defaultProject = None,
            p_chunks = None, p_createdAt = [], useCount = 1, successRate = Some 1 \<rparr>"
  let ?ps = "[?p1, ?p2, ?p3]"
  let ?x = "''Buy the milk, eggs!''"
  note T = patternsMatch_first_in_store_order
             [of "''buy milk now''" "''buy milk now please''" ?ps ?x "(?p2, 1 / 2)"]
  have s: "spec_patternsMatch ''buy milk now'' ''buy milk now please''"
    by code_simp
  have d: "distinct (split_sp ''buy milk now'')"
    by code_simp
  have n: "normalizeForMatching ?x = ''buy milk eggs''"
    by code_simp
  have m1: "\<not> patternsMatch ''buy milk eggs'' ''walk dog''"
    by code_simp
  have m2: "patternsMatch ''buy milk eggs'' ''buy milk eggs bread''"
    by code_simp
  have sim: "similarity ''buy milk eggs'' ''buy milk eggs'' = 1"
    by code_simp
  have ex: "\<exists>i < length ?ps. (?p2, 1 / 2) = (?ps ! i, rate_or (successRate (?ps ! i)))
           \<and> patternsMatch (normalizeForMatching ?x) (normalized (?ps ! i))
           \<and> (\<forall>j < i. \<not> patternsMatch (normalizeForMatching ?x) (normalized (?ps ! j)))"
    by (rule exI[of _ 1]) (simp add: n m1 m2 rate_or_def)
  from T s have "patternsMatch ''buy milk now'' ''buy milk now please''" by blast
  moreover from T ex have "findMatchingPattern ?ps ?x = Some (?p2, 1 / 2)" by blast
  ultimately show ?thesis using s d n sim by simp
qed

text \<open>
  C3 as stated fails: three tokens \<open>milk\<close> against \<open>buy milk now\<close> are accepted (each of
  the three occurs in the other key), while the multiset intersection has one element.
\<close>

theorem patternsMatch_multiset_counterexample:
  "patternsMatch ''milk milk milk'' ''buy milk now''
   \<and> \<not> spec_patternsMatch ''milk milk milk'' ''buy milk now''
   \<and> normalizeForMatching ''milk milk milk'' = ''milk milk milk''
   \<and> normalizeForMatching ''buy milk now'' = ''buy milk now''"
  by code_simp

section \<open>Properties of the learning loop\<close>

lemma length_keep_top: "length (keep_top ps) \<le> 100"
  by (simp add: keep_top_def)

lemma length_learn: "length (learnFromClaudeResponse i t x r ps) \<le> 100"
  by (simp only: learnFromClaudeResponse_def length_keep_top)

lemma length_learn_all:
  "length ps \<le> 100 \<Longrightarrow> length (learn_all calls ps) \<le> 100"
proof (induction calls arbitrary: ps)
  case Nil
  then show ?case by simp
next
  case (Cons c calls)
  obtain i t x r where c: "c = (i, t, x, r)" by (cases c) auto
  show ?case unfolding c learn_all.simps
    by (rule Cons.IH) (rule length_learn)
qed

lemma keep_evicted_mset: "mset (keep_top ps) + mset (evicted ps) = mset ps"
proof (cases "length ps > 100")
  case True
  have "mset (take 100 (by_use_count ps)) + mset (drop 100 (by_use_count ps))
        = mset (take 100 (by_use_count ps) @ drop 100 (by_use_count ps))"
    by (simp only: mset_append)
  also have "\<dots> = mset (by_use_count ps)" by (simp only: append_take_drop_id)
  also have "\<dots> = mset ps" by (simp add: by_use_count_def)
  finally show ?thesis using True by (simp add: keep_top_def evicted_def)
next
  case False
  then show ?thesis by (simp add: keep_top_def evicted_def)
qed

lemma by_use_count_sorted: "sorted (map (\<lambda>p. - useCount p) (by_use_count ps))"
  by (simp add: by_use_count_def)

lemma evicted_lowest:
  assumes "q \<in> set (evicted ps)" and "p \<in> set (keep_top ps)"
  shows "useCount q \<le> useCount p"
proof (cases "length ps > 100")
  case True
  let ?s = "by_use_count ps"
  let ?f = "\<lambda>p. - useCount p"
  have "map ?f (take 100 ?s) @ map ?f (drop 100 ?s) = map ?f ?s"
    by (simp only: map_append[symmetric] append_take_drop_id)
  then have "sorted (map ?f (take 100 ?s) @ map ?f (drop 100 ?s))"
    by (simp only: by_use_count_sorted)
  then have "\<forall>a \<in> set (map ?f (take 100 ?s)). \<forall>b \<in> set (map ?f (drop 100 ?s)). a \<le> b"
    by (simp only: sorted_append) blast
  then have "\<forall>a \<in> set (take 100 ?s). \<forall>b \<in> set (drop 100 ?s). - useCount a \<le> - useCount b"
    by (simp only: set_map) blast
  moreover have "q \<in> set (drop 100 ?s)" using assms(1) True by (simp add: evicted_def)
  moreover have "p \<in> set (take 100 ?s)" using assms(2) True by (simp add: keep_top_def)
  ultimately have "- useCount p \<le> - useCount q" by blast
  then show ?thesis by simp
next
  case False
  with assms(1) show ?thesis by (simp add: evicted_def)
qed

text \<open>
  C2. Starting from at most 100 patterns, no run of learning calls leaves more than 100
  (every single call leaves at most 100, whatever it starts from). A call stores the merged
  or appended list and, when that has more than 100 entries, keeps the first 100 of its
  stable sort by falling \<open>useCount\<close>: kept and evicted patterns together are the stored
  ones, and no evicted pattern has a higher \<open>useCount\<close> than a kept one.
\<close>

theorem store_capacity:
  "(length ps \<le> 100 \<longrightarrow> length (learn_all calls ps) \<le> 100)
   \<and> length (learnFromClaudeResponse i t x r ps) \<le> 100
   \<and> (let stored = add_or_update (new_pattern i t x r) ps in
        learnFromClaudeResponse i t x r ps = keep_top stored
        \<and> mset (keep_top stored) + mset (evicted stored) = mset stored
        \<and> (\<forall>q \<in> set (evicted stored). \<forall>p \<in> set (keep_top stored). useCount q \<le> useCount p)
        \<and> (length stored \<le> 100 \<longrightarrow> keep_top stored = stored \<and> evicted stored = [])
        \<and> (length stored > 100 \<longrightarrow>
              keep_top stored = take 100 (by_use_count stored)
              \<and> evicted stored = drop 100 (by_use_count stored)
              \<and> sorted (map (\<lambda>p. - useCount p) (by_use_count stored))
              \<and> mset (by_use_count stored) = mset stored))"
proof -
  have a: "length ps \<le> 100 \<longrightarrow> length (learn_all calls ps) \<le> 100"
    using length_learn_all by blast
  have b: "length (learnFromClaudeResponse i t x r ps) \<le> 100"
    by (rule length_learn)
  have c: "\<forall>q \<in> set (evicted stored). \<forall>p \<in> set (keep_top stored). useCount q \<le> useCount p"
    for stored using evicted_lowest by blast
  have d: "length stored \<le> 100 \<longrightarrow> keep_top stored = stored \<and> evicted stored = []" for stored
    by (simp add: keep_top_def evicted_def)
  have e: "length stored > 100 \<longrightarrow>
              keep_top stored = take 100 (by_use_count stored)
              \<and> evicted stored = drop 100 (by_use_count stored)
              \<and> sorted (map (\<lambda>p. - useCount p) (by_use_count stored))
              \<and> mset (by_use_count stored) = mset stored" for stored
    using by_use_count_sorted[of stored] by (simp add: keep_top_def evicted_def by_use_count_def)
  show ?thesis
    unfolding Let_def
    using a b c d e keep_evicted_mset learnFromClaudeResponse_def by simp
qed

text \<open>
  A full store of 100 patterns with the use counts 0 to 99 and a new input that matches
  none of them: 101 patterns are stored, the one with use count 0 is evicted and the new
  pattern stays. From the empty store nothing is evicted.
\<close>

theorem store_capacity_witness:
  "length (map (\<lambda>n. \<lparr> p_id = ''p'', normalized = ''walk dog'', originalInput = ''walk the dog'',
                     taskNameTemplate = None, projectPattern = None, defaultProject = None,
                     p_chunks = None, p_createdAt = [], useCount = int n,
                     successRate = Some 1 \<rparr>) [0..<100]) \<le> 100
   \<and> length (add_or_update
         (new_pattern ''id1'' ''d1'' ''buy milk'' \<lparr> r_name = None, r_project = ''Home'', r_chunks = None \<rparr>)
         (map (\<lambda>n. \<lparr> p_id = ''p'', normalized = ''walk dog'', originalInput = ''walk the dog'',
                     taskNameTemplate = None, projectPattern = None, defaultProject = None,
                     p_chunks = None, p_createdAt = [], useCount = int n,
                     successRate = Some 1 \<rparr>) [0..<100])) > 100
   \<and> evicted (add_or_update
         (new_pattern ''id1'' ''d1'' ''buy milk'' \<lparr> r_name = None, r_project = ''Home'', r_chunks = None \<rparr>)
         (map (\<lambda>n. \<lparr> p_id = ''p'', normalized = ''walk dog'', originalInput = ''walk the dog'',
                     taskNameTemplate = None, projectPattern = None, defaultProject = None,
                     p_chunks = None, p_createdAt = [], useCount = int n,
                     successRate = Some 1 \<rparr>) [0..<100]))
       = [\<lparr> p_id = ''p'', normalized = ''walk dog'', originalInput = ''walk the dog'',
            taskNameTemplate = None, projectPattern = None, defaultProject = None,
            p_chunks = None, p_createdAt = [], useCount = 0, successRate = Some 1 \<rparr>]
   \<and> 0 \<le> useCount (last (learnFromClaudeResponse ''id1'' ''d1'' ''buy milk''
                     \<lparr> r_name = None, r_project = ''Home'', r_chunks = None \<rparr>
         (map (\<lambda>n. \<lparr> p_id = ''p'', normalized = ''walk dog'', originalInput = ''walk the dog'',
                     taskNameTemplate = None, projectPattern = None, defaultProject = None,
                     p_chunks = None, p_createdAt = [], useCount = int n,
                     successRate = Some 1 \<rparr>) [0..<100])))
   \<and> length (learn_all [(''id1'', ''d1'', ''buy milk'',
                           \<lparr> r_name = None, r_project = ''Home'', r_chunks = None \<rparr>)]
         (map (\<lambda>n. \<lparr> p_id = ''p'', normalized = ''walk dog'', originalInput = ''walk the dog'',
                     taskNameTemplate = None, projectPattern = None, defaultProject = None,
                     p_chunks = None, p_createdAt = [], useCount = int n,
                     successRate = Some 1 \<rparr>) [0..<100])) \<le> 100
   \<and> length (add_or_update
         (new_pattern ''id1'' ''d1'' ''buy milk'' \<lparr> r_name = None, r_project = ''Home'', r_chunks = None \<rparr>)
         []) \<le> 100
   \<and> evicted (add_or_update
         (new_pattern ''id1'' ''d1'' ''buy milk'' \<lparr> r_name = None, r_project = ''Home'', r_chunks = None \<rparr>)
         []) = []"
proof -
  let ?full = "map (\<lambda>n. \<lparr> p_id = ''p'', normalized = ''walk dog'', originalInput = ''walk the dog'',
                     taskNameTemplate = None, projectPattern = None, defaultProject = None,
                     p_chunks = None, p_createdAt = [], useCount = int n,
                     successRate = Some 1 \<rparr>) [0..<100]"
  let ?r = "\<lparr> r_name = None, r_project = ''Home'', r_chunks = None \<rparr>"
  let ?new = "new_pattern ''id1'' ''d1'' ''buy milk'' ?r"
  let ?p0 = "\<lparr> p_id = ''p'', normalized = ''walk dog'', originalInput = ''walk the dog'',
            taskNameTemplate = None, projectPattern = None, defaultProject = None,
            p_chunks = None, p_createdAt = [], useCount = 0, successRate = Some 1 \<rparr>"
  note T = store_capacity [of ?full "[(''id1'', ''d1'', ''buy milk'', ?r)]" "''id1''" "''d1''" "''buy milk''" ?r]
  note E = store_capacity [of "[]" "[]" "''id1''" "''d1''" "''buy milk''" ?r]
  have l: "length ?full \<le> 100" by simp
  have g: "length (add_or_update ?new ?full) > 100" by code_simp
  have ev: "evicted (add_or_update ?new ?full) = [?p0]" by code_simp
  have l0: "length (add_or_update ?new []) \<le> 100" by code_simp
  from T l have a: "length (learn_all [(''id1'', ''d1'', ''buy milk'', ?r)] ?full) \<le> 100"
    by blast
  from T have "\<forall>q \<in> set (evicted (add_or_update ?new ?full)).
        \<forall>p \<in> set (learnFromClaudeResponse ''id1'' ''d1'' ''buy milk'' ?r ?full). useCount q \<le> useCount p"
    unfolding Let_def by simp
  then have "\<forall>p \<in> set (learnFromClaudeResponse ''id1'' ''d1'' ''buy milk'' ?r ?full). 0 \<le> useCount p"
    unfolding ev by simp
  moreover have "length (learnFromClaudeResponse ''id1'' ''d1'' ''buy milk'' ?r ?full) = 100"
    using g by (simp add: learnFromClaudeResponse_def keep_top_def by_use_count_def)
  then have "learnFromClaudeResponse ''id1'' ''d1'' ''buy milk'' ?r ?full \<noteq> []"
    by auto
  ultimately have b: "0 \<le> useCount (last (learnFromClaudeResponse ''id1'' ''d1'' ''buy milk'' ?r ?full))"
    using last_in_set by blast
  from E l0 have c: "evicted (add_or_update ?new []) = []"
    unfolding Let_def by blast
  show ?thesis using l g ev a b l0 c by blast
qed

lemma findIndex_Some:
  "findIndex P xs = Some k \<Longrightarrow> k < length xs \<and> P (xs ! k) \<and> (\<forall>j < k. \<not> P (xs ! j))"
proof (induction xs arbitrary: k)
  case Nil
  then show ?case by simp
next
  case (Cons x xs)
  show ?case
  proof (cases "P x")
    case True
    with Cons.prems show ?thesis by simp
  next
    case False
    with Cons.prems obtain k' where k': "findIndex P xs = Some k'" "k = Suc k'"
      by auto
    from Cons.IH[OF k'(1)] have ih: "k' < length xs" "P (xs ! k')" "\<forall>j < k'. \<not> P (xs ! j)"
      by auto
    have "\<forall>j < Suc k'. \<not> P ((x # xs) ! j)"
    proof (intro allI impI)
      fix j assume "j < Suc k'"
      then show "\<not> P ((x # xs) ! j)" using False ih(3) by (cases j) auto
    qed
    with ih k'(2) show ?thesis by simp
  qed
qed


lemma normalized_new_pattern: "normalized (new_pattern i t x r) = normalizeForMatching x"
  by (simp add: new_pattern_def)

lemma p_chunks_new_pattern: "p_chunks (new_pattern i t x r) = Some (learned_chunks r)"
  by (simp add: new_pattern_def)



text \<open>
  C10. When an existing pattern matches the new key, the stored list differs from the old
  one at that index only: there \<open>useCount\<close> is one higher and the chunk list is the
  latest one, and every other field is as before; no other entry changes, and with at most
  100 patterns the stored list is the result of the call.
\<close>

theorem merge_frame:
  assumes "existingIndex ps (normalizeForMatching input) = Some k"
  shows "let stored = add_or_update (new_pattern i t input r) ps in
      k < length ps \<and> length stored = length ps
      \<and> patternsMatch (normalized (ps ! k)) (normalizeForMatching input)
      \<and> (\<forall>j < k. \<not> patternsMatch (normalized (ps ! j)) (normalizeForMatching input))
      \<and> useCount (stored ! k) = useCount (ps ! k) + 1
      \<and> p_chunks (stored ! k) = Some (learned_chunks r)
      \<and> p_id (stored ! k) = p_id (ps ! k)
      \<and> normalized (stored ! k) = normalized (ps ! k)
      \<and> originalInput (stored ! k) = originalInput (ps ! k)
      \<and> taskNameTemplate (stored ! k) = taskNameTemplate (ps ! k)
      \<and> projectPattern (stored ! k) = projectPattern (ps ! k)
      \<and> defaultProject (stored ! k) = defaultProject (ps ! k)
      \<and> successRate (stored ! k) = successRate (ps ! k)
      \<and> p_createdAt (stored ! k) = p_createdAt (ps ! k)
      \<and> (\<forall>j < length ps. j \<noteq> k \<longrightarrow> stored ! j = ps ! j)
      \<and> (length ps \<le> 100 \<longrightarrow> learnFromClaudeResponse i t input r ps = stored)"
proof -
  let ?new = "new_pattern i t input r"
  from assms have fi: "findIndex (\<lambda>p. patternsMatch (normalized p) (normalizeForMatching input)) ps = Some k"
    by (simp add: existingIndex_def)
  from findIndex_Some[OF fi]
  have k: "k < length ps" "patternsMatch (normalized (ps ! k)) (normalizeForMatching input)"
    "\<forall>j < k. \<not> patternsMatch (normalized (ps ! j)) (normalizeForMatching input)"
    by auto
  have st: "add_or_update ?new ps = ps[k := merge_pattern ?new (ps ! k)]"
    using assms by (simp add: add_or_update_def normalized_new_pattern)
  have len: "length (add_or_update ?new ps) = length ps" by (simp add: st)
  have at: "add_or_update ?new ps ! k = merge_pattern ?new (ps ! k)"
    using k(1) by (simp add: st)
  have others: "\<forall>j < length ps. j \<noteq> k \<longrightarrow> add_or_update ?new ps ! j = ps ! j"
    by (simp add: st)
  have cap: "length ps \<le> 100 \<longrightarrow> learnFromClaudeResponse i t input r ps = add_or_update ?new ps"
    by (simp add: learnFromClaudeResponse_def keep_top_def len)
  show ?thesis
    unfolding Let_def
    using k len others cap
    by (simp add: at merge_pattern_def p_chunks_new_pattern)
qed

text \<open>
  A store of two patterns; the input \<open>Buy milk, eggs and bread!\<close> has the key
  \<open>buy milk eggs and bread\<close>, which the second pattern matches with four of its four
  words out of five.
\<close>

theorem merge_frame_witness:
  "existingIndex
     [\<lparr> p_id = ''p1'', normalized = ''walk dog'', originalInput = ''walk the dog'',
        taskNameTemplate = None, projectPattern = None, defaultProject = None,
        p_chunks = None, p_createdAt = ''d1'', useCount = 1, successRate = None \<rparr>,
      \<lparr> p_id = ''p2'', normalized = ''buy milk eggs bread'', originalInput = ''buy milk, eggs, bread'',
        taskNameTemplate = None, projectPattern = None, defaultProject = Some ''Home'',
        p_chunks = Some [Some ''Old step''], p_createdAt = ''d2'', useCount = 3,
        successRate = Some 1 \<rparr>]
     (normalizeForMatching ''Buy milk, eggs and bread!'') = Some 1
   \<and> learnFromClaudeResponse ''id3'' ''d3'' ''Buy milk, eggs and bread!''
        \<lparr> r_name = Some ''Buy groceries'', r_project = ''Home'',
          r_chunks = Some [CObj \<lparr> c_id = ''c1'', c_name = Some ''Go to store'',
                                 c_completed = False, c_order = 0 \<rparr>] \<rparr>
     [\<lparr> p_id = ''p1'', normalized = ''walk dog'', originalInput = ''walk the dog'',
        taskNameTemplate = None, projectPattern = None, defaultProject = None,
        p_chunks = None, p_createdAt = ''d1'', useCount = 1, successRate = None \<rparr>,
      \<lparr> p_id = ''p2'', normalized = ''buy milk eggs bread'', originalInput = ''buy milk, eggs, bread'',
        taskNameTemplate = None, projectPattern = None, defaultProject = Some ''Home'',
        p_chunks = Some [Some ''Old step''], p_createdAt = ''d2'', useCount = 3,
        successRate = Some 1 \<rparr>]
   = [\<lparr> p_id = ''p1'', normalized = ''walk dog'', originalInput = ''walk the dog'',
        taskNameTemplate = None, projectPattern = None, defaultProject = None,
        p_chunks = None, p_createdAt = ''d1'', useCount = 1, successRate = None \<rparr>,
      \<lparr> p_id = ''p2'', normalized = ''buy milk eggs bread'', originalInput = ''buy milk, eggs, bread'',
        taskNameTemplate = None, projectPattern = None, defaultProject = Some ''Home'',
        p_chunks = Some [Some ''Go to store''], p_createdAt = ''d2'', useCount = 4,
        successRate = Some 1 \<rparr>]"
proof -
  let ?p1 = "\<lparr> p_id = ''p1'', normalized = ''walk dog'', originalInput = ''walk the dog'',
        taskNameTemplate = None, projectPattern = None, defaultProject = None,
        p_chunks = None, p_createdAt = ''d1'', useCount = 1, successRate = None \<rparr>"
  let ?p2 = "\<lparr> p_id = ''p2'', normalized = ''buy milk eggs bread'', originalInput = ''buy milk, eggs, bread'',
        taskNameTemplate = None, projectPattern = None, defaultProject = Some ''Home'',
        p_chunks = Some [Some ''Old step''], p_createdAt = ''d2'', useCount = 3,
        successRate = Some 1 \<rparr>"
  let ?r = "\<lparr> r_name = Some ''Buy groceries'', r_project = ''Home'',
          r_chunks = Some [CObj \<lparr> c_id = ''c1'', c_name = Some ''Go to store'',
                                 c_completed = False, c_order = 0 \<rparr>] \<rparr>"
  let ?x = "''Buy milk, eggs and bread!''"
  have e: "existingIndex [?p1, ?p2] (normalizeForMatching ?x) = Some 1"
    by code_simp
  have c: "learned_chunks ?r = [Some ''Go to store'']"
    by (simp add: learned_chunks_def)
  have "add_or_update (new_pattern ''id3'' ''d3'' ?x ?r) [?p1, ?p2]
          = [?p1, ?p2\<lparr> useCount := 4, p_chunks := Some [Some ''Go to store''] \<rparr>]"
    using merge_frame [OF e, of "''id3''" "''d3''" ?r]
    unfolding Let_def
    by (intro nth_equalityI) (auto simp: c less_Suc_eq)
  moreover have "learnFromClaudeResponse ''id3'' ''d3'' ?x ?r [?p1, ?p2]
          = add_or_update (new_pattern ''id3'' ''d3'' ?x ?r) [?p1, ?p2]"
    using merge_frame [OF e, of "''id3''" "''d3''" ?r]
    unfolding Let_def by simp
  ultimately show ?thesis using e by simp
qed




section \<open>Properties of the calendar\<close>















section \<open>Properties of the deadline extractor and the decision engine\<close>





text \<open>
  C8. When the numeric date pattern matches, the deadline is local midnight of
  \<open>new Date(year, month - 1, day)\<close> with the month and day of the match and its year, the
  current year when the match has none; the rule list has no part in it, so two texts with
  the same date match get the same deadline.
\<close>

theorem numeric_date_overrides:
  assumes "re_match False re_date text = Some dateMatch"
  shows "deadline_date z t text
           = new_Date z (case group 3 dateMatch of
                           Some y \<Rightarrow> parseInt y
                         | None \<Rightarrow> getFullYear z t)
                        (parseInt (group_text 1 dateMatch) - 1)
                        (parseInt (group_text 2 dateMatch))
         \<and> extractDeadline z t text = toISOString (deadline_date z t text)
         \<and> (re_match False re_date text' = Some dateMatch \<longrightarrow>
              extractDeadline z t text' = extractDeadline z t text)"
  using assms by (simp add: deadline_date_def extractDeadline_def Let_def)

text \<open>
  C5. In coach mode the decision is cloud with reason \<open>coach_mode\<close>, whatever the input,
  the duration and the force flag; without coach mode a forced request is cloud with reason
  \<open>forced\<close>; with neither, a voice duration above the threshold (15 by default) is cloud
  with reason \<open>long_voice_input\<close>. The rules apply in this order.
\<close>

theorem strategy_top_rules:
  "decideParsingStrategy st x v f True
     = \<lparr> strategy = Cloud, confidence = 0, reason = ''coach_mode'' \<rparr>
   \<and> decideParsingStrategy st x v True False
     = \<lparr> strategy = Cloud, confidence = 0, reason = ''forced'' \<rparr>
   \<and> (v > voiceLengthThresholdSeconds (cfg st) \<longrightarrow>
        decideParsingStrategy st x v False False
          = \<lparr> strategy = Cloud, confidence = 0, reason = ''long_voice_input'' \<rparr>)
   \<and> voiceLengthThresholdSeconds default_config = 15"
  by (simp add: decideParsingStrategy_def default_config_def)



text \<open>
  Thursday 30 January 2025 and the text \<open>finish tomorrow 1/25\<close>: the rule list gives
  31 January, noon, and the deadline is 25 January, midnight; \<open>finish on monday 1/25\<close> has
  the same date match and the same deadline.
\<close>

theorem numeric_date_overrides_witness:
  "re_match False re_date ''finish tomorrow 1/25'' = Some (Some CHR ''5'', [], [(2, ''25''), (1, ''1'')])
   \<and> re_match False re_date ''finish on monday 1/25'' = Some (Some CHR ''5'', [], [(2, ''25''), (1, ''1'')])
   \<and> rule_deadline 0 (20118 * 86400000 + 43200000) ''finish tomorrow 1/25'' = Some 1738324800000
   \<and> iso_string 1738324800000 = ''2025-01-31T12:00:00.000Z''
   \<and> extractDeadline 0 (20118 * 86400000 + 43200000) ''finish tomorrow 1/25''
       = Inr ''2025-01-25T00:00:00.000Z''
   \<and> extractDeadline 0 (20118 * 86400000 + 43200000) ''finish on monday 1/25''
       = Inr ''2025-01-25T00:00:00.000Z''"
proof -
  let ?t = "20118 * 86400000 + 43200000 :: int"
  let ?m = "(Some CHR ''5'', [], [(2, ''25''), (1, ''1'')]) :: mstate"
  have a: "re_match False re_date ''finish tomorrow 1/25'' = Some ?m" by code_simp
  have b: "re_match False re_date ''finish on monday 1/25'' = Some ?m" by code_simp
  have c: "rule_deadline 0 ?t ''finish tomorrow 1/25'' = Some 1738324800000" by code_simp
  have d: "iso_string 1738324800000 = ''2025-01-31T12:00:00.000Z''" by code_simp
  have e: "toISOString (new_Date 0 (case group 3 ?m of Some y \<Rightarrow> parseInt y | None \<Rightarrow> getFullYear 0 ?t)
                          (parseInt (group_text 1 ?m) - 1) (parseInt (group_text 2 ?m)))
           = Inr ''2025-01-25T00:00:00.000Z''"
    by code_simp
  note T = numeric_date_overrides [OF a, of 0 ?t "''finish on monday 1/25''"]
  from T e have f: "extractDeadline 0 ?t ''finish tomorrow 1/25'' = Inr ''2025-01-25T00:00:00.000Z''"
    by simp
  from T b f have "extractDeadline 0 ?t ''finish on monday 1/25'' = Inr ''2025-01-25T00:00:00.000Z''"
    by simp
  with a b c d f show ?thesis by simp
qed

text \<open>
  The two calls of the specification, in a fresh engine with the default configuration.
\<close>

theorem strategy_top_rules_witness:
  "(20 :: rat) > voiceLengthThresholdSeconds default_config
   \<and> decideParsingStrategy
        \<lparr> cfg = default_config, learnedPatterns = [], userProjects = [],
          userStats = \<lparr> totalInputs = 0, localParses = 0, cloudParses = 0 \<rparr>,
          apiCallsToday = 0 \<rparr> ''buy milk'' 20 False False
      = \<lparr> strategy = Cloud, confidence = 0, reason = ''long_voice_input'' \<rparr>
   \<and> decideParsingStrategy
        \<lparr> cfg = default_config, learnedPatterns = [], userProjects = [],
          userStats = \<lparr> totalInputs = 0, localParses = 0, cloudParses = 0 \<rparr>,
          apiCallsToday = 0 \<rparr> ''buy milk'' 0 False True
      = \<lparr> strategy = Cloud, confidence = 0, reason = ''coach_mode'' \<rparr>"
proof -
  let ?st = "\<lparr> cfg = default_config, learnedPatterns = [], userProjects = [],
          userStats = \<lparr> totalInputs = 0, localParses = 0, cloudParses = 0 \<rparr>,
          apiCallsToday = 0 \<rparr>"
  have h: "(20 :: rat) > voiceLengthThresholdSeconds (cfg ?st)"
    by (simp add: default_config_def)
  from strategy_top_rules [of ?st "''buy milk''" 20 False] h
  have "decideParsingStrategy ?st ''buy milk'' 20 False False
          = \<lparr> strategy = Cloud, confidence = 0, reason = ''long_voice_input'' \<rparr>"
    by blast
  moreover from strategy_top_rules [of ?st "''buy milk''" 0 False]
  have "decideParsingStrategy ?st ''buy milk'' 0 False True
          = \<lparr> strategy = Cloud, confidence = 0, reason = ''coach_mode'' \<rparr>"
    by blast
  ultimately show ?thesis using h by simp
qed

section \<open>Properties of the entry point\<close>

lemma iso_string_nonempty: "iso_string t \<noteq> []"
  by (simp add: iso_string_def Let_def)

lemma extractDeadline_nonempty: "extractDeadline z t x = Inr d \<Longrightarrow> d \<noteq> []"
  by (auto simp: extractDeadline_def toISOString_def iso_string_nonempty split: option.splits)

lemma formatTaskResult_with_deadline:
  assumes "d_deadline data = Some d" and "d \<noteq> []"
  shows "\<exists>t. formatTaskResult e gen data = Inr t \<and> t_deadline t = d
            \<and> t_parsedBy t = None \<and> t_rateLimited t = None"
  using assms by (simp add: formatTaskResult_def)

lemma ruleBasedParse_Inl:
  assumes "extractDeadline (tz e) (now e) (toLowerCase text) = Inl err"
  shows "ruleBasedParse e ps pr text = (Inl err, pr)"
  using assms by (simp add: ruleBasedParse_def Let_def)

lemma ruleBasedParse_Inr:
  assumes "extractDeadline (tz e) (now e) (toLowerCase text) = Inr d"
  shows "\<exists>t pr'. ruleBasedParse e ps pr text = (Inr t, pr') \<and> t_deadline t = d
            \<and> t_parsedBy t = None \<and> t_rateLimited t = None"
proof -
  have d: "d \<noteq> []" using assms by (rule extractDeadline_nonempty)
  show ?thesis
    using assms d by (simp add: ruleBasedParse_def Let_def formatTaskResult_def)
qed

lemma parseLocally_Inl:
  assumes "extractDeadline (tz e) (now e) (toLowerCase (trim input)) = Inl err"
  shows "parseLocally e ps pr input = (Inl err, pr)"
proof (cases "findMatchingPattern ps (trim input)")
  case None
  then have "applyLearnedPatterns e ps (trim input) = Inr None"
    by (simp add: applyLearnedPatterns_def)
  then show ?thesis
    using ruleBasedParse_Inl[OF assms, of ps pr] by (simp add: parseLocally_def Let_def)
next
  case (Some a)
  then have "applyLearnedPatterns e ps (trim input) = Inl err"
    using assms by (cases a) (simp add: applyLearnedPatterns_def)
  then show ?thesis by (simp add: parseLocally_def Let_def)
qed

lemma parseLocally_Inr:
  assumes "extractDeadline (tz e) (now e) (toLowerCase (trim input)) = Inr d"
  shows "\<exists>t pr'. parseLocally e ps pr input = (Inr t, pr') \<and> t_deadline t = d
            \<and> t_parsedBy t = None \<and> t_rateLimited t = None"
proof (cases "findMatchingPattern ps (trim input)")
  case None
  then have a: "applyLearnedPatterns e ps (trim input) = Inr None"
    by (simp add: applyLearnedPatterns_def)
  from ruleBasedParse_Inr[OF assms, of ps pr]
  obtain t pr' where "ruleBasedParse e ps pr (trim input) = (Inr t, pr')" "t_deadline t = d"
    "t_parsedBy t = None" "t_rateLimited t = None" by blast
  then show ?thesis using a by (simp add: parseLocally_def Let_def lift_task_def)
next
  case (Some a)
  obtain p c where a: "a = (p, c)" by (cases a)
  have d: "d \<noteq> []" using assms by (rule extractDeadline_nonempty)
  have "\<exists>data. applyLearnedPatterns e ps (trim input) = Inr (Some data) \<and> d_deadline data = Some d"
    using Some assms by (simp add: applyLearnedPatterns_def a)
  then obtain data where data: "applyLearnedPatterns e ps (trim input) = Inr (Some data)"
    "d_deadline data = Some d" by blast
  from formatTaskResult_with_deadline[OF data(2) d]
  obtain t where "formatTaskResult e (\<lambda>name. map Some (generateChunks e ps name)) data = Inr t"
    "t_deadline t = d" "t_parsedBy t = None" "t_rateLimited t = None" by blast
  then show ?thesis using data(1) by (simp add: parseLocally_def Let_def)
qed

lemma canMakeApiCall_count_input: "canMakeApiCall (count_input st) = canMakeApiCall st"
  by (simp add: canMakeApiCall_def count_input_def)

lemma forced_is_cloud:
  "forceCloud opts \<or> isCoachMode opts \<Longrightarrow>
     strategy (decideParsingStrategy st input (voiceDurationSeconds opts) (forceCloud opts)
                 (isCoachMode opts)) = Cloud"
  by (auto simp: decideParsingStrategy_def)

lemma parseTask_fallback:
  assumes c: "strategy (decideParsingStrategy (count_input st) input (voiceDurationSeconds opts)
                   (forceCloud opts) (isCoachMode opts)) = Cloud"
    and q: "\<not> canMakeApiCall (count_input st)"
  shows "parseTask e r st input opts =
      (case parseLocally e (learnedPatterns (count_input st)) (userProjects (count_input st)) input of
         (Inl err, ps) \<Rightarrow> (Inl err, (count_input st)\<lparr> userProjects := ps \<rparr>)
       | (Inr result, ps) \<Rightarrow>
           (Inr (result\<lparr> t_parsedBy := Some ''local_fallback'', t_rateLimited := Some True \<rparr>),
            (count_input st)\<lparr> userProjects := ps \<rparr>))"
  unfolding parseTask_def Let_def
  by (simp only: c q strategy.distinct if_False if_True not_False_eq_True)

lemma parseTask_fallback_Inl:
  assumes "strategy (decideParsingStrategy (count_input st) input (voiceDurationSeconds opts)
                   (forceCloud opts) (isCoachMode opts)) = Cloud"
    and "\<not> canMakeApiCall (count_input st)"
    and "extractDeadline (tz e) (now e) (toLowerCase (trim input)) = Inl err"
  shows "parseTask e r st input opts = (Inl err, count_input st)"
proof -
  have "parseLocally e (learnedPatterns (count_input st)) (userProjects (count_input st)) input
          = (Inl err, userProjects (count_input st))"
    using assms(3) by (rule parseLocally_Inl)
  then show ?thesis
    by (simp add: parseTask_fallback[OF assms(1,2)])
qed

lemma parseTask_fallback_Inr:
  assumes "strategy (decideParsingStrategy (count_input st) input (voiceDurationSeconds opts)
                   (forceCloud opts) (isCoachMode opts)) = Cloud"
    and "\<not> canMakeApiCall (count_input st)"
    and "extractDeadline (tz e) (now e) (toLowerCase (trim input)) = Inr d"
  shows "\<exists>t pr'. parseTask e r st input opts = (Inr t, (count_input st)\<lparr> userProjects := pr' \<rparr>)
           \<and> t_rateLimited t = Some True \<and> t_parsedBy t = Some ''local_fallback''
           \<and> t_deadline t = d"
proof -
  from parseLocally_Inr[OF assms(3), of "learnedPatterns (count_input st)" "userProjects (count_input st)"]
  obtain t pr' where
    "parseLocally e (learnedPatterns (count_input st)) (userProjects (count_input st)) input = (Inr t, pr')"
    "t_deadline t = d" by blast
  then have "parseTask e r st input opts
      = (Inr (t\<lparr> t_parsedBy := Some ''local_fallback'', t_rateLimited := Some True \<rparr>),
         (count_input st)\<lparr> userProjects := pr' \<rparr>)"
    by (simp add: parseTask_fallback[OF assms(1,2)])
  moreover have "t_deadline (t\<lparr> t_parsedBy := Some ''local_fallback'', t_rateLimited := Some True \<rparr>) = d"
    using \<open>t_deadline t = d\<close> by simp
  ultimately show ?thesis by auto
qed

text \<open>
  C6 (as the code has it). When the decision is cloud (as it is whenever \<open>forceCloud\<close> or
  coach mode is set) and the quota is used up, \<open>parseTask\<close> does not depend on the remote
  side and leaves the call count and the learned patterns as they are. If the deadline of
  the trimmed input is a valid date, the result is the locally parsed task, tagged
  \<open>local_fallback\<close> and rate limited; otherwise the \<open>RangeError\<close> of \<open>toISOString\<close>
  reaches the caller.
\<close>

theorem quota_downgrade:
  assumes cloud: "forceCloud opts \<or> isCoachMode opts \<or>
       strategy (decideParsingStrategy (count_input st) input (voiceDurationSeconds opts)
                   (forceCloud opts) (isCoachMode opts)) = Cloud"
    and quota: "\<not> canMakeApiCall st"
  shows "parseTask e response st input opts = parseTask e response' st input opts
    \<and> apiCallsToday (snd (parseTask e response st input opts)) = apiCallsToday st
    \<and> learnedPatterns (snd (parseTask e response st input opts)) = learnedPatterns st
    \<and> (case extractDeadline (tz e) (now e) (toLowerCase (trim input)) of
          Inl err \<Rightarrow> fst (parseTask e response st input opts) = Inl err
        | Inr d \<Rightarrow>
            (\<exists>t. fst (parseTask e response st input opts) = Inr t
                  \<and> t_rateLimited t = Some True
                  \<and> t_parsedBy t = Some ''local_fallback''
                  \<and> t_deadline t = d))"
proof -
  have c: "strategy (decideParsingStrategy (count_input st) input (voiceDurationSeconds opts)
                   (forceCloud opts) (isCoachMode opts)) = Cloud"
    using cloud forced_is_cloud[of opts "count_input st" input] by blast
  have q: "\<not> canMakeApiCall (count_input st)"
    using quota by (simp add: canMakeApiCall_count_input)
  have lp: "learnedPatterns (count_input st) = learnedPatterns st"
    "apiCallsToday (count_input st) = apiCallsToday st"
    by (simp_all add: count_input_def)
  have indep: "parseTask e response st input opts = parseTask e response' st input opts"
    by (simp only: parseTask_fallback[OF c q])
  show ?thesis
  proof (cases "extractDeadline (tz e) (now e) (toLowerCase (trim input))")
    case (Inl err)
    have "parseTask e response st input opts = (Inl err, count_input st)"
      using c q Inl by (rule parseTask_fallback_Inl)
    then show ?thesis using indep Inl lp by simp
  next
    case (Inr d)
    from parseTask_fallback_Inr[OF c q Inr, of response]
    obtain t pr' where
      "parseTask e response st input opts = (Inr t, (count_input st)\<lparr> userProjects := pr' \<rparr>)"
      "t_rateLimited t = Some True" "t_parsedBy t = Some ''local_fallback''" "t_deadline t = d"
      by blast
    then show ?thesis using indep Inr lp by simp
  qed
qed















text \<open>
  A free user who has made the five calls of the day forces the cloud for \<open>buy milk\<close> on
  Thursday 30 January 2025, noon: the task is parsed locally and tagged, whatever the remote
  side would have answered.
\<close>

theorem quota_downgrade_witness:
  "forceCloud \<lparr> voiceDurationSeconds = 0, forceCloud = True, isCoachMode = False \<rparr>
   \<and> \<not> canMakeApiCall
         \<lparr> cfg = default_config, learnedPatterns = [], userProjects = [],
           userStats = \<lparr> totalInputs = 0, localParses = 0, cloudParses = 0 \<rparr>,
           apiCallsToday = 5 \<rparr>
   \<and> fst (parseTask
         \<lparr> tz = 0, now = 1738238400000, task_id = ''t1'', chunk_id = (\<lambda>i. ''c''), pattern_id = ''p1'' \<rparr>
         (Some \<lparr> d_taskName = None, d_name = Some ''Buy some milk'', d_project = None,
                 d_deadline = None, d_chunks = None \<rparr>)
         \<lparr> cfg = default_config, learnedPatterns = [], userProjects = [],
           userStats = \<lparr> totalInputs = 0, localParses = 0, cloudParses = 0 \<rparr>,
           apiCallsToday = 5 \<rparr>
         ''buy milk''
         \<lparr> voiceDurationSeconds = 0, forceCloud = True, isCoachMode = False \<rparr>)
     = Inr \<lparr> t_id = ''t1'', t_name = ''Buy milk'', t_project = ''Inbox'',
             t_deadline = ''2025-01-31T12:00:00.000Z'',
             t_chunks =
               [Some (CObj \<lparr> c_id = ''c'', c_name = Some ''Research options'',
                              c_completed = False, c_order = 0 \<rparr>),
                Some (CObj \<lparr> c_id = ''c'', c_name = Some ''Compare prices'',
                              c_completed = False, c_order = 1 \<rparr>),
                Some (CObj \<lparr> c_id = ''c'', c_name = Some ''Make purchase'',
                              c_completed = False, c_order = 2 \<rparr>)],
             t_completed = False, t_createdAt = ''2025-01-30T12:00:00.000Z'',
             t_parsedBy = Some ''local_fallback'', t_confidence = None,
             t_rateLimited = Some True \<rparr>"
proof -
  let ?e = "\<lparr> tz = 0, now = 1738238400000, task_id = ''t1'', chunk_id = (\<lambda>i. ''c''),
             pattern_id = ''p1'' \<rparr>"
  let ?st = "\<lparr> cfg = default_config, learnedPatterns = [], userProjects = [],
           userStats = \<lparr> totalInputs = 0, localParses = 0, cloudParses = 0 \<rparr>,
           apiCallsToday = 5 \<rparr>"
  let ?opts = "\<lparr> voiceDurationSeconds = 0, forceCloud = True, isCoachMode = False \<rparr>"
  let ?r = "Some \<lparr> d_taskName = None, d_name = Some ''Buy some milk'', d_project = None,
                 d_deadline = None, d_chunks = (None :: chunkv list option) \<rparr>"
  have f: "forceCloud ?opts" by simp
  have q: "\<not> canMakeApiCall ?st" by (simp add: canMakeApiCall_def default_config_def)
  have v: "fst (parseTask ?e None ?st ''buy milk'' ?opts)
     = Inr \<lparr> t_id = ''t1'', t_name = ''Buy milk'', t_project = ''Inbox'',
             t_deadline = ''2025-01-31T12:00:00.000Z'',
             t_chunks =
               [Some (CObj \<lparr> c_id = ''c'', c_name = Some ''Research options'',
                              c_completed = False, c_order = 0 \<rparr>),
                Some (CObj \<lparr> c_id = ''c'', c_name = Some ''Compare prices'',
                              c_completed = False, c_order = 1 \<rparr>),
                Some (CObj \<lparr> c_id = ''c'', c_name = Some ''Make purchase'',
                              c_completed = False, c_order = 2 \<rparr>)],
             t_completed = False, t_createdAt = ''2025-01-30T12:00:00.000Z'',
             t_parsedBy = Some ''local_fallback'', t_confidence = None,
             t_rateLimited = Some True \<rparr>"
    by code_simp
  have "parseTask ?e ?r ?st ''buy milk'' ?opts = parseTask ?e None ?st ''buy milk'' ?opts"
    using quota_downgrade [of ?opts ?st "''buy milk''" ?e ?r None] f q by blast
  with v f q show ?thesis by simp
qed

text \<open>
  C6 as stated fails: with the quota used up and the cloud forced, the input
  \<open>pay rent in 200000000 days\<close> moves the deadline beyond the range of time values, and
  \<open>toISOString\<close> raises a \<open>RangeError\<close> that rejects the call.
\<close>

theorem quota_downgrade_counterexample:
  "\<not> canMakeApiCall
       \<lparr> cfg = default_config, learnedPatterns = [], userProjects = [],
         userStats = \<lparr> totalInputs = 0, localParses = 0, cloudParses = 0 \<rparr>,
         apiCallsToday = 5 \<rparr>
   \<and> fst (parseTask
         \<lparr> tz = 0, now = 1738238400000, task_id = ''t1'', chunk_id = (\<lambda>i. ''c''), pattern_id = ''p1'' \<rparr>
         None
         \<lparr> cfg = default_config, learnedPatterns = [], userProjects = [],
           userStats = \<lparr> totalInputs = 0, localParses = 0, cloudParses = 0 \<rparr>,
           apiCallsToday = 5 \<rparr>
         ''pay rent in 200000000 days''
         \<lparr> voiceDurationSeconds = 0, forceCloud = True, isCoachMode = False \<rparr>)
     = Inl RangeError"
  by code_simp



section \<open>Properties of the normalizer\<close>

text \<open>
  The normalizer is a pipeline of global replacements. On a plain key every stage is the
  identity: no stage finds a match, except the white-space stage, which replaces each single
  space by itself. The lemmas below first relate the tokens of \<open>split_sp\<close> to the
  occurrences of a word between word boundaries, then bound what the matcher can return for
  the regular expressions of the pipeline.
\<close>

lemma split_sp_ne: "split_sp s \<noteq> []"
  by (induction s) (auto split: list.splits)

lemma split_sp_append: "split_sp (a @ CHR '' '' # b) = split_sp a @ split_sp b"
proof (induction a)
  case Nil
  then show ?case by simp
next
  case (Cons c a)
  obtain w ws where w: "split_sp a = w # ws" using split_sp_ne[of a] by (cases "split_sp a") auto
  show ?case using Cons w by simp
qed

lemma split_sp_no_space: "CHR '' '' \<notin> set l \<Longrightarrow> split_sp l = [l]"
  by (induction l) auto

lemma split_sp_snoc_space: "split_sp (a @ '' '') = split_sp a @ [[]]"
  using split_sp_append[of a "[]"] by simp

lemma char_in_token:
  "c \<in> set y \<Longrightarrow> c \<noteq> CHR '' '' \<Longrightarrow> \<exists>t \<in> set (split_sp y). c \<in> set t"
proof (induction y)
  case Nil
  then show ?case by simp
next
  case (Cons d y)
  obtain w ws where w: "split_sp y = w # ws" using split_sp_ne[of y] by (cases "split_sp y") auto
  show ?case
  proof (cases "d = CHR '' ''")
    case True
    with Cons show ?thesis by auto
  next
    case False
    show ?thesis
    proof (cases "c = d")
      case True
      then show ?thesis using False w by simp
    next
      case F2: False
      with Cons.prems have "c \<in> set y" by simp
      from Cons.IH[OF this Cons.prems(2)] obtain t where "t \<in> set (w # ws)" "c \<in> set t"
        using w by auto
      then show ?thesis using False w by auto
    qed
  qed
qed

lemma bounded_occurrence_token:
  assumes "y = u @ l @ v" and "CHR '' '' \<notin> set l"
    and "u = [] \<or> last u = CHR '' ''" and "v = [] \<or> hd v = CHR '' ''"
  shows "l \<in> set (split_sp y)"
proof -
  have r: "l \<in> set (split_sp (l @ v))"
  proof (cases v)
    case Nil
    then show ?thesis using assms(2) by (simp add: split_sp_no_space)
  next
    case (Cons d v')
    with assms(4) have "d = CHR '' ''" by simp
    then show ?thesis using Cons assms(2) by (simp add: split_sp_append split_sp_no_space)
  qed
  show ?thesis
  proof (cases "u = []")
    case True
    then show ?thesis using r assms(1) by simp
  next
    case False
    with assms(3) obtain u' where "u = u' @ '' ''"
      by (metis append_butlast_last_id)
    then show ?thesis using r assms(1) by (simp add: split_sp_append)
  qed
qed

lemma zip_tl_mid: "(a, b) \<in> set (zip (xs @ a # b # ys) (tl (xs @ a # b # ys)))"
proof (induction xs)
  case Nil
  then show ?case by simp
next
  case (Cons x xs)
  let ?r = "xs @ a # b # ys"
  obtain h t where r: "?r = h # t" by (cases ?r) auto
  have "zip (x # ?r) ?r = (x, h) # zip ?r t" by (simp add: r)
  moreover have "zip ?r (tl ?r) = zip ?r t" by (simp add: r)
  ultimately show ?case using Cons by simp
qed

lemma bounded_pair_tokens:
  assumes "y = u @ a @ CHR '' '' # b @ v" and "CHR '' '' \<notin> set a" and "CHR '' '' \<notin> set b"
    and "u = [] \<or> last u = CHR '' ''" and "v = [] \<or> hd v = CHR '' ''"
  shows "(a, b) \<in> set (zip (split_sp y) (tl (split_sp y)))"
proof -
  have bv: "\<exists>ys. split_sp (b @ v) = b # ys"
  proof (cases v)
    case Nil
    then show ?thesis using assms(3) by (simp add: split_sp_no_space)
  next
    case (Cons d v')
    with assms(5) have "d = CHR '' ''" by simp
    then show ?thesis using Cons assms(3) by (simp add: split_sp_append split_sp_no_space)
  qed
  then obtain ys where ys: "split_sp (b @ v) = b # ys" by blast
  have m: "split_sp (a @ CHR '' '' # b @ v) = a # b # ys"
    using assms(2) ys by (simp add: split_sp_append split_sp_no_space)
  show ?thesis
  proof (cases "u = []")
    case True
    then show ?thesis using m assms(1) by simp
  next
    case False
    with assms(4) obtain u' where u: "u = u' @ '' ''"
      by (metis append_butlast_last_id)
    have "split_sp y = split_sp u' @ a # b # ys"
      using assms(1) m unfolding u by (simp add: split_sp_append)
    then show ?thesis using zip_tl_mid[of a b "split_sp u'" ys] by simp
  qed
qed

declare ms.simps(8) [simp del] ms.simps(9) [simp del]
lemma ms_alts: "set (ms ci (alts rs) st) = (\<Union>r \<in> set rs. set (ms ci r st))"
proof (induction rs rule: alts.induct)
  case 1
  then show ?case by (simp add: set_has_def split: list.splits)
next
  case (2 r)
  then show ?case by simp
next
  case (3 r v va)
  then show ?case by simp
qed

lemma ms_Cat_mem:
  "x \<in> set (ms ci (Cat r1 r2) st) \<longleftrightarrow> (\<exists>y \<in> set (ms ci r1 st). x \<in> set (ms ci r2 y))"
  by (simp only: ms.simps(6) set_concat set_map) blast

lemma ms_WB_mem: "x \<in> set (ms ci WB st) \<longleftrightarrow> x = st \<and> boundary (fst st) (rest st)"
  by (simp only: ms.simps(11)) auto

lemma ms_Grp_mem:
  "x \<in> set (ms ci (Grp n r) st) \<longleftrightarrow> (\<exists>y \<in> set (ms ci r st). x = capture n st y)"
  by (simp only: ms.simps(10) set_map) blast

lemma ms_Str_mem:
  "x \<in> set (ms ci (Str l) st) \<longleftrightarrow> str_at ci l (rest st) \<and> x = advance st (length l)"
  by (simp only: ms.simps(2)) auto

lemma ms_set_cons:
  "ms ci (Set xs) (p, c # cs, g) = (if set_has ci xs c then [(Some c, cs, g)] else [])"
  by (simp add: rest_def advance_def)

lemma ms_set_nil: "ms ci (Set xs) (p, [], g) = []"
  by (simp add: rest_def)

lemma ms_Set_mem:
  "x \<in> set (ms ci (Set xs) (p, s, g)) \<longleftrightarrow>
     (\<exists>c cs. s = c # cs \<and> set_has ci xs c \<and> x = (Some c, cs, g))"
  by (cases s) (auto simp: ms_set_cons ms_set_nil simp del: ms.simps)

lemma ms_words:
  "x \<in> set (ms ci (words ws) st) \<Longrightarrow>
     \<exists>l \<in> set ws. str_at ci l (rest st) \<and> x = advance st (length l)"
proof -
  assume "x \<in> set (ms ci (words ws) st)"
  then obtain r where "r \<in> set (map Str ws)" "x \<in> set (ms ci r st)"
    unfolding words_def ms_alts by blast
  then obtain l where "l \<in> set ws" "x \<in> set (ms ci (Str l) st)" by auto
  then show ?thesis by (auto simp only: ms_Str_mem)
qed

lemma str_at_prefix: "str_at False l s \<Longrightarrow> \<exists>v. s = l @ v"
  by (induction False l s rule: str_at.induct) (auto simp: chr_eq_def)

lemma advance_over:
  "l \<noteq> [] \<Longrightarrow> advance (p, l @ v, g) (length l) = (Some (last l), v, g)"
  by (simp add: advance_def nth_append last_conv_nth)

lemma capture_parts: "fst (capture n st (q, v, g)) = q \<and> rest (capture n st (q, v, g)) = v"
  by (simp add: capture_def rest_def)

lemma ms_word_of:
  assumes "ms False (re_word_of ws) (p, s, []) \<noteq> []" and "\<forall>l \<in> set ws. l \<noteq> []"
  shows "\<exists>l \<in> set ws. \<exists>v. s = l @ v \<and> boundary p s \<and> boundary (Some (last l)) v"
proof -
  from assms(1) obtain x where x: "x \<in> set (ms False (re_word_of ws) (p, s, []))"
    by (cases "ms False (re_word_of ws) (p, s, [])") auto
  from x obtain a where a: "a \<in> set (ms False WB (p, s, []))"
    and xa: "x \<in> set (ms False (Cat (Grp 1 (words ws)) WB) a)"
    unfolding re_word_of_def ms_Cat_mem by blast
  from a have a': "a = (p, s, [])" and b: "boundary p s"
    by (simp_all only: ms_WB_mem fst_conv rest_def snd_conv)
  from xa obtain c where c: "c \<in> set (ms False (Grp 1 (words ws)) (p, s, []))"
    and xc: "x \<in> set (ms False WB c)"
    unfolding a' ms_Cat_mem by blast
  from c obtain y where y: "y \<in> set (ms False (words ws) (p, s, []))"
    and cy: "c = capture 1 (p, s, []) y"
    unfolding ms_Grp_mem by blast
  from ms_words[OF y] obtain l where l: "l \<in> set ws" "str_at False l s"
    "y = advance (p, s, []) (length l)" by (auto simp: rest_def)
  from str_at_prefix[OF l(2)] obtain v where v: "s = l @ v" by blast
  have ne: "l \<noteq> []" using assms(2) l(1) by blast
  have yv: "y = (Some (last l), v, [])" using l(3) advance_over[OF ne] v by simp
  from xc have "boundary (fst c) (rest c)" by (simp only: ms_WB_mem)
  then have "boundary (Some (last l)) v"
    unfolding cy yv using capture_parts[of 1 "(p, s, [])" "Some (last l)" v "[]"] by simp
  with l(1) v b show ?thesis by blast
qed

lemma ms_star_set_nil: "ms ci (Star (Set xs)) (p, [], g) = [(p, [], g)]"
  by (subst ms.simps(8)) (simp add: ms_set_nil del: ms.simps)

lemma ms_star_set_cons:
  "ms ci (Star (Set xs)) (p, c # cs, g) =
     (if set_has ci xs c then ms ci (Star (Set xs)) (Some c, cs, g) else []) @ [(p, c # cs, g)]"
  by (subst ms.simps(8)) (simp add: ms_set_cons rest_def del: ms.simps)

lemma ms_star_set:
  "x \<in> set (ms ci (Star (Set xs)) (p, s, g)) \<Longrightarrow>
     \<exists>ds v. s = ds @ v \<and> (\<forall>c \<in> set ds. set_has ci xs c)
            \<and> x = (if ds = [] then p else Some (last ds), v, g)"
proof (induction s arbitrary: p)
  case Nil
  then show ?case by (simp add: ms_star_set_nil del: ms.simps)
next
  case (Cons c cs)
  have "x = (p, c # cs, g) \<or> (set_has ci xs c \<and> x \<in> set (ms ci (Star (Set xs)) (Some c, cs, g)))"
  proof (cases "set_has ci xs c")
    case True
    with Cons.prems show ?thesis by (simp add: ms_star_set_cons del: ms.simps)
  next
    case False
    with Cons.prems show ?thesis by (simp add: ms_star_set_cons del: ms.simps)
  qed
  then show ?case
  proof
    assume "x = (p, c # cs, g)"
    then show ?thesis by (intro exI[of _ "[]"] exI[of _ "c # cs"]) simp
  next
    assume a: "set_has ci xs c \<and> x \<in> set (ms ci (Star (Set xs)) (Some c, cs, g))"
    from Cons.IH[OF conjunct2[OF a]] obtain ds v where d: "cs = ds @ v"
      "\<forall>c \<in> set ds. set_has ci xs c" "x = (if ds = [] then Some c else Some (last ds), v, g)"
      by blast
    have "set_has ci xs c" using a by (rule conjunct1)
    then show ?thesis
      using d by (intro exI[of _ "c # ds"] exI[of _ v]) auto
  qed
qed

lemma set_has_digit: "set_has False [CD] c = is_digit c"
  by (simp add: set_has_def)

lemma set_has_space: "set_has False [CS] c = is_space c"
  by (simp add: set_has_def)

lemma set_has_punct: "set_has False [CW, CS] c = (is_word c \<or> is_space c)"
  by (auto simp: set_has_def)




lemma ms_number:
  assumes "ms False re_number (p, s, []) \<noteq> []"
  shows "\<exists>ds v. s = ds @ v \<and> ds \<noteq> [] \<and> (\<forall>c \<in> set ds. is_digit c)
           \<and> boundary p s \<and> boundary (Some (last ds)) v"
proof -
  from assms obtain x where x: "x \<in> set (ms False re_number (p, s, []))"
    by (cases "ms False re_number (p, s, [])") auto
  from x obtain a where a: "a \<in> set (ms False WB (p, s, []))"
    and xa: "x \<in> set (ms False (Cat (Plus (Set [CD])) WB) a)"
    unfolding re_number_def ms_Cat_mem by blast
  from a have a': "a = (p, s, [])" and b: "boundary p s"
    by (simp_all only: ms_WB_mem fst_conv rest_def snd_conv)
  from xa obtain y where y: "y \<in> set (ms False (Plus (Set [CD])) (p, s, []))"
    and xy: "x \<in> set (ms False WB y)"
    unfolding a' ms_Cat_mem by blast
  from xy have yb: "boundary (fst y) (rest y)" by (simp only: ms_WB_mem)
  from y obtain z where z: "z \<in> set (ms False (Set [CD]) (p, s, []))"
    and yz: "y \<in> set (ms False (Star (Set [CD])) z)"
    unfolding Plus_def ms_Cat_mem by blast
  from z obtain c cs where s: "s = c # cs" "is_digit c" and z': "z = (Some c, cs, [])"
    unfolding ms_Set_mem set_has_digit by blast
  from ms_star_set[OF yz[unfolded z']] obtain ds v where d: "cs = ds @ v"
    "\<forall>c \<in> set ds. is_digit c" "y = (if ds = [] then Some c else Some (last ds), v, [])"
    unfolding set_has_digit by blast
  have "boundary (Some (last (c # ds))) v" using yb d(3) by (auto simp: rest_def)
  then show ?thesis
    using s d b by (intro exI[of _ "c # ds"] exI[of _ v]) auto
qed

declare replace_from.simps [simp del] count_from.simps [simp del]

lemma replace_from_no_match:
  assumes "\<And>u v. s = u @ v \<Longrightarrow> ms ci r (if u = [] then p else Some (last u), v, []) = []"
  shows "replace_from ci r rep p s = s"
  using assms
proof (induction s arbitrary: p)
  case Nil
  from Nil[of "[]" "[]"] have "ms ci r (p, [], []) = []" by simp
  then show ?case by (subst replace_from.simps) simp
next
  case (Cons c cs)
  from Cons.prems[of "[]" "c # cs"] have m: "ms ci r (p, c # cs, []) = []" by simp
  have "replace_from ci r rep (Some c) cs = cs"
  proof (rule Cons.IH)
    fix u v assume "cs = u @ v"
    then have "c # cs = (c # u) @ v" by simp
    from Cons.prems[OF this] show "ms ci r (if u = [] then Some c else Some (last u), v, []) = []"
      by (cases "u = []") simp_all
  qed
  then show ?case using m by (subst replace_from.simps) simp
qed

lemma key_char_word: "key_char c \<Longrightarrow> is_word c"
  by (auto simp: key_char_def is_word_def)

lemma key_char_not_space: "key_char c \<Longrightarrow> \<not> is_space c"
proof -
  assume k: "key_char c"
  have u: "code (CHR ''_'') = 95" by (simp add: code_def)
  from k u have "(97 \<le> code c \<and> code c \<le> 122) \<or> (48 \<le> code c \<and> code c \<le> 57) \<or> code c = 95"
    by (auto simp: key_char_def is_lower_def is_digit_def)
  then show ?thesis by (auto simp: is_space_def)
qed

lemma space_char_space: "is_space (CHR '' '')"
  by (simp add: is_space_def code_def)

lemma space_char_not_word: "\<not> is_word (CHR '' '')"
  by (simp add: is_word_def is_upper_def is_lower_def is_digit_def code_def)

lemma key_char_lower: "key_char c \<Longrightarrow> lower_char c = c"
proof -
  assume k: "key_char c"
  have u: "code (CHR ''_'') = 95" by (simp add: code_def)
  from k u have "(97 \<le> code c \<and> code c \<le> 122) \<or> (48 \<le> code c \<and> code c \<le> 57) \<or> code c = 95"
    by (auto simp: key_char_def is_lower_def is_digit_def)
  then show ?thesis by (auto simp: lower_char_def is_upper_def)
qed

lemma space_lower: "lower_char (CHR '' '') = CHR '' ''"
  by (simp add: lower_char_def is_upper_def code_def)

text \<open>The characters of a string all of whose tokens are plain.\<close>

lemma plain_chars:
  assumes "\<forall>t \<in> set (split_sp y). plain_token t" and "c \<in> set y"
  shows "key_char c \<or> c = CHR '' ''"
proof (cases "c = CHR '' ''")
  case True
  then show ?thesis by simp
next
  case False
  from char_in_token[OF assms(2) False] obtain t where "t \<in> set (split_sp y)" "c \<in> set t"
    by blast
  with assms(1) show ?thesis by (auto simp: plain_token_def)
qed

lemma plain_left:
  assumes ch: "\<forall>c \<in> set y. key_char c \<or> c = CHR '' ''" and y: "y = u @ s"
    and b: "boundary (if u = [] then None else Some (last u)) s"
    and s: "s \<noteq> []" "is_word (hd s)"
  shows "u = [] \<or> last u = CHR '' ''"
proof (cases "u = []")
  case True
  then show ?thesis by simp
next
  case False
  obtain c cs where cs: "s = c # cs" using s(1) by (cases s) auto
  from b False cs s(2) have "\<not> is_word (last u)" by (simp add: boundary_def at_word_def)
  moreover have "last u \<in> set y" using False y by simp
  ultimately show ?thesis using ch key_char_word by blast
qed

lemma plain_right:
  assumes ch: "\<forall>c \<in> set y. key_char c \<or> c = CHR '' ''" and y: "y = u @ l @ v"
    and b: "boundary (Some (last l)) v" and l: "is_word (last l)"
  shows "v = [] \<or> hd v = CHR '' ''"
proof (cases v)
  case Nil
  then show ?thesis by simp
next
  case (Cons c cs)
  from b l Cons have "\<not> is_word c" by (simp add: boundary_def at_word_def)
  moreover have "c \<in> set y" using Cons y by simp
  ultimately show ?thesis using ch key_char_word Cons by auto
qed

lemma stage_lower:
  assumes "\<forall>c \<in> set y. key_char c \<or> c = CHR '' ''"
  shows "toLowerCase y = y"
  unfolding toLowerCase_def
  using assms by (induction y) (auto simp: key_char_lower space_lower)

lemma stage_punct:
  assumes ch: "\<forall>c \<in> set y. key_char c \<or> c = CHR '' ''"
  shows "replace_all False re_punct rep y = y"
  unfolding replace_all_def
proof (rule replace_from_no_match)
  fix u v assume y: "y = u @ v"
  show "ms False re_punct (if u = [] then None else Some (last u), v, []) = []"
  proof (cases v)
    case Nil
    then show ?thesis by (simp add: re_punct_def rest_def)
  next
    case (Cons c cs)
    with y ch have "key_char c \<or> c = CHR '' ''" by simp
    then have "set_has False [CW, CS] c"
      using key_char_word space_char_space by (auto simp: set_has_punct)
    then show ?thesis using Cons by (simp add: re_punct_def rest_def)
  qed
qed

lemma stage_words:
  assumes ch: "\<forall>c \<in> set y. key_char c \<or> c = CHR '' ''"
    and ws: "\<forall>l \<in> set ws. l \<noteq> [] \<and> is_word (hd l) \<and> is_word (last l)
               \<and> ((CHR '' '' \<notin> set l \<and> l \<notin> set (split_sp y))
                  \<or> (\<exists>a b. l = a @ CHR '' '' # b \<and> CHR '' '' \<notin> set a \<and> CHR '' '' \<notin> set b
                        \<and> (a, b) \<notin> set (zip (split_sp y) (tl (split_sp y)))))"
  shows "replace_all False (re_word_of ws) rep y = y"
  unfolding replace_all_def
proof (rule replace_from_no_match)
  fix u v assume y: "y = u @ v"
  let ?p = "if u = [] then None else Some (last u)"
  show "ms False (re_word_of ws) (?p, v, []) = []"
  proof (rule ccontr)
    assume ne: "ms False (re_word_of ws) (?p, v, []) \<noteq> []"
    from ws have "\<forall>l \<in> set ws. l \<noteq> []" by blast
    from ms_word_of[OF ne this] obtain l v' where l: "l \<in> set ws" and v: "v = l @ v'"
      and b1: "boundary ?p v" and b2: "boundary (Some (last l)) v'"
      by blast
    from ws l have ln: "l \<noteq> []" and hw: "is_word (hd l)" and lw: "is_word (last l)"
      by blast+
    have vn: "v \<noteq> []" using v ln by simp
    have hv: "is_word (hd v)" using v ln hw by simp
    have left: "u = [] \<or> last u = CHR '' ''"
      by (rule plain_left[OF ch y b1 vn hv])
    have y2: "y = u @ l @ v'" using y v by simp
    have right: "v' = [] \<or> hd v' = CHR '' ''"
      by (rule plain_right[OF ch y2 b2 lw])
    from ws l consider
      (one) "CHR '' '' \<notin> set l" "l \<notin> set (split_sp y)"
      | (two) a b where "l = a @ CHR '' '' # b" "CHR '' '' \<notin> set a" "CHR '' '' \<notin> set b"
          "(a, b) \<notin> set (zip (split_sp y) (tl (split_sp y)))"
      by blast
    then show False
    proof cases
      case one
      from bounded_occurrence_token[OF y2 one(1) left right] one(2) show False by simp
    next
      case two
      have y3: "y = u @ a @ CHR '' '' # b @ v'" using y2 two(1) by simp
      from bounded_pair_tokens[OF y3 two(2) two(3) left right] two(4) show False by simp
    qed
  qed
qed

lemma digit_word: "is_digit c \<Longrightarrow> is_word c"
  by (simp add: is_word_def)

lemma digit_not_space: "is_digit c \<Longrightarrow> c \<noteq> CHR '' ''"
  by (auto simp: is_digit_def code_def)

lemma stage_number:
  assumes ch: "\<forall>c \<in> set y. key_char c \<or> c = CHR '' ''"
    and nd: "\<forall>t \<in> set (split_sp y). t = [] \<or> \<not> (\<forall>c \<in> set t. is_digit c)"
  shows "replace_all False re_number rep y = y"
  unfolding replace_all_def
proof (rule replace_from_no_match)
  fix u v assume y: "y = u @ v"
  let ?p = "if u = [] then None else Some (last u)"
  show "ms False re_number (?p, v, []) = []"
  proof (rule ccontr)
    assume ne: "ms False re_number (?p, v, []) \<noteq> []"
    from ms_number[OF ne] obtain ds v' where v: "v = ds @ v'" and dn: "ds \<noteq> []"
      and dd: "\<forall>c \<in> set ds. is_digit c"
      and b1: "boundary ?p v" and b2: "boundary (Some (last ds)) v'"
      by blast
    have hw: "is_word (hd ds)" and lw: "is_word (last ds)"
      using dn dd digit_word by simp_all
    have vn: "v \<noteq> []" using v dn by simp
    have hv: "is_word (hd v)" using v dn hw by simp
    have left: "u = [] \<or> last u = CHR '' ''"
      by (rule plain_left[OF ch y b1 vn hv])
    have y2: "y = u @ ds @ v'" using y v by simp
    have right: "v' = [] \<or> hd v' = CHR '' ''"
      by (rule plain_right[OF ch y2 b2 lw])
    have ns: "CHR '' '' \<notin> set ds" using dd digit_not_space by blast
    from bounded_occurrence_token[OF y2 ns left right] have "ds \<in> set (split_sp y)" .
    with nd dn dd show False by blast
  qed
qed

lemma ms_spaces_nil: "ms False re_spaces (p, [], []) = []"
  by (simp add: re_spaces_def Plus_def rest_def)

lemma ms_spaces_nonspace: "\<not> is_space c \<Longrightarrow> ms False re_spaces (p, c # cs, []) = []"
  by (simp add: re_spaces_def Plus_def set_has_space rest_def)

lemma ms_spaces_single:
  "is_space c \<Longrightarrow> \<not> is_space e \<Longrightarrow>
   ms False re_spaces (p, c # e # es, []) = [(Some c, e # es, [])]"
  by (simp add: re_spaces_def Plus_def ms_set_cons ms_star_set_cons set_has_space
           del: ms.simps(3))

lemma split_sp_cons_nonspace:
  "d \<noteq> CHR '' '' \<Longrightarrow> \<exists>w ws. split_sp (d # ds) = (d # w) # ws \<and> split_sp ds = w # ws"
  using split_sp_ne[of ds] by (cases "split_sp ds") auto

lemma tokens_head_nonspace:
  assumes "\<forall>t \<in> set (split_sp (c # cs)). t \<noteq> []"
  shows "c \<noteq> CHR '' ''"
  using assms by auto

lemma tokens_tail:
  assumes tk: "\<forall>t \<in> set (split_sp (c # d # ds)). t \<noteq> []" and d: "d \<noteq> CHR '' ''"
  shows "\<forall>t \<in> set (split_sp (d # ds)). t \<noteq> []"
proof -
  from split_sp_cons_nonspace[OF d] obtain w ws
    where e: "split_sp (d # ds) = (d # w) # ws" by blast
  have c: "c \<noteq> CHR '' ''" by (rule tokens_head_nonspace[OF tk])
  have "split_sp (c # d # ds) = (c # d # w) # ws"
    using c e by (simp del: split_sp.simps add: split_sp.simps(2)[of c "d # ds"])
  with tk e show ?thesis by simp
qed

lemma tokens_after_space:
  assumes tk: "\<forall>t \<in> set (split_sp (c # CHR '' '' # ds)). t \<noteq> []"
  shows "\<forall>t \<in> set (split_sp ds). t \<noteq> []"
proof -
  have c: "c \<noteq> CHR '' ''" by (rule tokens_head_nonspace[OF tk])
  then have "split_sp (c # CHR '' '' # ds) = [c] # split_sp ds" by simp
  with tk show ?thesis by simp
qed

lemma stage_spaces_from:
  assumes "\<forall>c \<in> set s. key_char c \<or> c = CHR '' ''"
    and "s = [] \<or> (\<forall>t \<in> set (split_sp s). t \<noteq> [])"
  shows "replace_from False re_spaces '' '' p s = s"
  using assms
proof (induction "length s" arbitrary: s p rule: less_induct)
  case less
  show ?case
  proof (cases s)
    case Nil
    then show ?thesis by (subst replace_from.simps) (simp add: ms_spaces_nil)
  next
    case (Cons c cs)
    with less.prems(2) have tk: "\<forall>t \<in> set (split_sp (c # cs)). t \<noteq> []" by simp
    have c: "c \<noteq> CHR '' ''" by (rule tokens_head_nonspace[OF tk])
    with less.prems(1) Cons have "key_char c" by simp
    then have ns: "\<not> is_space c" by (rule key_char_not_space)
    have step: "replace_from False re_spaces '' '' p (c # cs)
                = c # replace_from False re_spaces '' '' (Some c) cs"
      by (subst replace_from.simps) (simp add: ms_spaces_nonspace[OF ns])
    have "replace_from False re_spaces '' '' (Some c) cs = cs"
    proof (cases cs)
      case Nil
      then show ?thesis by (subst replace_from.simps) (simp add: ms_spaces_nil)
    next
      case (Cons d ds)
      note cs = Cons
      show ?thesis
      proof (cases "d = CHR '' ''")
        case False
        have t2: "\<forall>t \<in> set (split_sp cs). t \<noteq> []"
          using tokens_tail[of c d ds] tk cs False by simp
        have "length cs < length s" using \<open>s = c # cs\<close> by simp
        moreover have "\<forall>c \<in> set cs. key_char c \<or> c = CHR '' ''"
          using less.prems(1) \<open>s = c # cs\<close> by simp
        ultimately show ?thesis using less.hyps t2 by blast
      next
        case True
        have t3: "\<forall>t \<in> set (split_sp ds). t \<noteq> []"
          using tokens_after_space[of c ds] tk cs True by simp
        then have "ds \<noteq> []" by auto
        then obtain e es where ds: "ds = e # es" by (cases ds) auto
        have e: "e \<noteq> CHR '' ''" using tokens_head_nonspace[of e es] t3 ds by simp
        have "key_char e \<or> e = CHR '' ''"
          using less.prems(1) \<open>s = c # cs\<close> cs ds by simp
        with e have "key_char e" by simp
        then have nse: "\<not> is_space e" by (rule key_char_not_space)
        have m: "ms False re_spaces (Some c, CHR '' '' # e # es, [])
                 = [(Some (CHR '' ''), e # es, [])]"
          by (rule ms_spaces_single[OF space_char_space nse])
        have ih: "replace_from False re_spaces '' '' (Some (CHR '' '')) ds = ds"
        proof -
          have "length ds < length s" using \<open>s = c # cs\<close> cs by simp
          moreover have "\<forall>c \<in> set ds. key_char c \<or> c = CHR '' ''"
            using less.prems(1) \<open>s = c # cs\<close> cs by simp
          ultimately show ?thesis using less.hyps t3 by blast
        qed
        have "replace_from False re_spaces '' '' (Some c) (CHR '' '' # e # es)
              = '' '' @ replace_from False re_spaces '' '' (Some (CHR '' '')) (e # es)"
          by (subst replace_from.simps) (simp add: m rest_def)
        then show ?thesis using ih cs ds True by simp
      qed
    qed
    with step Cons show ?thesis by simp
  qed
qed

lemma stage_trim:
  assumes ch: "\<forall>c \<in> set y. key_char c \<or> c = CHR '' ''"
    and ne: "y \<noteq> []" and tk: "\<forall>t \<in> set (split_sp y). t \<noteq> []"
  shows "trim y = y"
proof -
  obtain c cs where y: "y = c # cs" using ne by (cases y) auto
  have "c \<noteq> CHR '' ''" using tokens_head_nonspace[of c cs] tk y by simp
  with ch y have "key_char c" by simp
  then have "\<not> is_space c" by (rule key_char_not_space)
  then have d: "dropWhile is_space y = y" using y by simp
  have l: "last y \<noteq> CHR '' ''"
  proof
    assume s: "last y = CHR '' ''"
    have "y = butlast y @ '' ''" using ne s append_butlast_last_id[of y] by simp
    then have "split_sp y = split_sp (butlast y) @ [[]]"
      using split_sp_snoc_space[of "butlast y"] by simp
    with tk show False by simp
  qed
  have "last y \<in> set y" using ne by simp
  with ch l have "key_char (last y)" by blast
  then have nl: "\<not> is_space (last y)" by (rule key_char_not_space)
  obtain b l where yb: "y = b @ [l]" using ne by (cases y rule: rev_cases) auto
  have "\<not> is_space l" using nl yb by simp
  then have "dropWhile is_space (rev (b @ [l])) = rev (b @ [l])" by simp
  then have "dropWhile is_space (rev y) = rev y" by (simp only: yb)
  then show ?thesis unfolding trim_def d by simp
qed

lemma stop_words_shape:
  "\<forall>l \<in> set stop_words. l \<noteq> [] \<and> is_word (hd l) \<and> is_word (last l) \<and> CHR '' '' \<notin> set l"
  by (simp add: stop_words_def is_word_def is_lower_def code_def)

lemma day_words_shape:
  "\<forall>l \<in> set day_words. l \<noteq> [] \<and> is_word (hd l) \<and> is_word (last l) \<and> CHR '' '' \<notin> set l"
  by (simp add: day_words_def is_word_def is_lower_def code_def)

lemma time_words_cases:
  "l \<in> set time_words \<Longrightarrow> l = ''today'' \<or> l = ''tomorrow'' \<or> l = ''next'' @ CHR '' '' # ''week''"
  by (auto simp: time_words_def)

lemma time_words_shape:
  "\<forall>l \<in> set time_words. l \<noteq> [] \<and> is_word (hd l) \<and> is_word (last l)"
  by (simp add: time_words_def is_word_def is_lower_def code_def)

lemma normalize_empty: "normalizeForMatching [] = []"
  by code_simp

lemma normalize_plain:
  assumes "plain_key y"
  shows "normalizeForMatching y = y"
proof (cases "y = []")
  case True
  then show ?thesis by (simp only: normalize_empty)
next
  case False
  with assms have T: "\<forall>t \<in> set (split_sp y). plain_token t"
    and E: "(''next'', ''week'') \<notin> set (zip (split_sp y) (tl (split_sp y)))"
    by (simp_all add: plain_key_def)
  have ch: "\<forall>c \<in> set y. key_char c \<or> c = CHR '' ''"
    using plain_chars[OF T] by blast
  have tk: "\<forall>t \<in> set (split_sp y). t \<noteq> []" using T by (auto simp: plain_token_def)
  have nd: "\<forall>t \<in> set (split_sp y). t = [] \<or> \<not> (\<forall>c \<in> set t. is_digit c)"
    using T by (auto simp: plain_token_def)
  have ns: "\<forall>l \<in> set stop_words. l \<notin> set (split_sp y)"
    using T by (auto simp: plain_token_def)
  have ny: "\<forall>l \<in> set day_words. l \<notin> set (split_sp y)"
    using T by (auto simp: plain_token_def)
  have nt: "\<forall>l \<in> set time_words. l \<notin> set (split_sp y)"
    using T by (auto simp: plain_token_def)
  have s1: "toLowerCase y = y" by (rule stage_lower[OF ch])
  have s2: "replace_all False re_punct '' '' y = y" by (rule stage_punct[OF ch])
  have s3: "replace_all False (re_word_of stop_words) [] y = y"
    by (rule stage_words[OF ch]) (use stop_words_shape ns in blast)
  have s4: "replace_all False (re_word_of day_words) ''[DAY]'' y = y"
    by (rule stage_words[OF ch]) (use day_words_shape ny in blast)
  have s5: "replace_all False (re_word_of time_words) ''[TIME]'' y = y"
  proof (rule stage_words[OF ch], rule ballI)
    fix l assume l: "l \<in> set time_words"
    from time_words_shape l have sh: "l \<noteq> [] \<and> is_word (hd l) \<and> is_word (last l)" by blast
    from time_words_cases[OF l] consider "l = ''today''" | "l = ''tomorrow''"
      | "l = ''next'' @ CHR '' '' # ''week''" by blast
    then have "(CHR '' '' \<notin> set l \<and> l \<notin> set (split_sp y))
        \<or> (\<exists>a b. l = a @ CHR '' '' # b \<and> CHR '' '' \<notin> set a \<and> CHR '' '' \<notin> set b
              \<and> (a, b) \<notin> set (zip (split_sp y) (tl (split_sp y))))"
    proof cases
      case 1
      then have "CHR '' '' \<notin> set l" by simp
      with nt l show ?thesis by blast
    next
      case 2
      then have "CHR '' '' \<notin> set l" by simp
      with nt l show ?thesis by blast
    next
      case 3
      have "CHR '' '' \<notin> set ''next''" "CHR '' '' \<notin> set ''week''" by simp_all
      with 3 E show ?thesis by blast
    qed
    with sh show "l \<noteq> [] \<and> is_word (hd l) \<and> is_word (last l)
        \<and> ((CHR '' '' \<notin> set l \<and> l \<notin> set (split_sp y))
           \<or> (\<exists>a b. l = a @ CHR '' '' # b \<and> CHR '' '' \<notin> set a \<and> CHR '' '' \<notin> set b
                 \<and> (a, b) \<notin> set (zip (split_sp y) (tl (split_sp y)))))"
      by blast
  qed
  have s6: "replace_all False re_number ''[NUM]'' y = y" by (rule stage_number[OF ch nd])
  have s7: "replace_all False re_spaces '' '' y = y"
    unfolding replace_all_def by (rule stage_spaces_from[OF ch]) (use tk in blast)
  have s8: "trim y = y" by (rule stage_trim[OF ch False tk])
  show ?thesis unfolding normalizeForMatching_def by (simp only: s1 s2 s3 s4 s5 s6 s7 s8)
qed

text \<open>
  C4 (as the code has it). When the normalized form of an input is a plain key, normalizing
  it again gives the same string. A normalized form that holds a placeholder is outside:
  the second pass lowers its letters and turns its brackets into spaces.
\<close>

theorem normalize_idempotent_on_plain_keys:
  assumes "plain_key (normalizeForMatching x)"
  shows "normalizeForMatching (normalizeForMatching x) = normalizeForMatching x"
  using assms by (rule normalize_plain)

text \<open>
  \<open>Buy milk for the Groceries project!\<close> normalizes to the plain key
  \<open>buy milk groceries project\<close>, which is a fixed point.
\<close>

theorem normalize_idempotent_on_plain_keys_witness:
  "normalizeForMatching ''Buy milk for the Groceries project!'' = ''buy milk groceries project''
   \<and> plain_key ''buy milk groceries project''
   \<and> normalizeForMatching ''buy milk groceries project'' = ''buy milk groceries project''"
proof -
  have n: "normalizeForMatching ''Buy milk for the Groceries project!''
           = ''buy milk groceries project''"
    by code_simp
  have p: "plain_key ''buy milk groceries project''"
    by code_simp
  from normalize_idempotent_on_plain_keys[of "''Buy milk for the Groceries project!''"] n p
  show ?thesis by simp
qed

text \<open>
  C4 as stated fails. \<open>call mom on monday\<close> normalizes to \<open>call mom [DAY]\<close>, and that to
  \<open>call mom day\<close>. Without any placeholder, \<open>next the week\<close> normalizes to
  \<open>next week\<close>, and that to \<open>[TIME]\<close>: dropping the stop word brings the two words
  together only after the relative-time stage has run.
\<close>

theorem normalize_idempotent_counterexample:
  "normalizeForMatching ''call mom on monday'' = ''call mom [DAY]''
   \<and> normalizeForMatching (normalizeForMatching ''call mom on monday'') = ''call mom day''
   \<and> normalizeForMatching (normalizeForMatching ''call mom on monday'')
       \<noteq> normalizeForMatching ''call mom on monday''
   \<and> normalizeForMatching ''next the week'' = ''next week''
   \<and> normalizeForMatching (normalizeForMatching ''next the week'') = ''[TIME]''"
proof -
  have a: "normalizeForMatching ''call mom on monday'' = ''call mom [DAY]''"
    by code_simp
  have b: "normalizeForMatching ''call mom [DAY]'' = ''call mom day''"
    by code_simp
  have c: "normalizeForMatching ''next the week'' = ''next week''"
    by code_simp
  have d: "normalizeForMatching ''next week'' = ''[TIME]''"
    by code_simp
  show ?thesis by (simp add: a b c d)
qed

end
